theory Spec2Isabelle
  imports Main "HOL-Library.AList" "HOL-Library.Word"
begin

section \<open>Python values and the object heap\<close>

text \<open>
  The module \<^verbatim>\<open>lstore/db.py\<close> holds the serializer
  (\<^verbatim>\<open>convert_to_serializable\<close>, \<^verbatim>\<open>rehydrate\<close>) and the class
  \<^verbatim>\<open>Database\<close>. The serializer tells objects apart by identity (\<^verbatim>\<open>id(obj)\<close>), so
  live objects sit in a heap: a list of objects, the address of an object being its index.
  Every Python object, a scalar as well, has an address.
\<close>

type_synonym addr = nat
type_synonym bytes = "8 word list"

text \<open>
  The types of the first \<^verbatim>\<open>isinstance\<close> test of \<^verbatim>\<open>convert_to_serializable\<close>:
  \<^verbatim>\<open>str, int, float, bool, type(None)\<close>. A float is carried as its IEEE-754 bit
  pattern: the code only passes floats through.
\<close>

datatype scalar = PNone | PBool bool | PInt int | PFloat "64 word" | PStr string

text \<open>
  An object of the heap, by the branch of \<^verbatim>\<open>convert_to_serializable\<close> that handles it.
  \<open>ODict\<close> lists the items in the order of \<^verbatim>\<open>obj.items()\<close>; \<open>OSet\<close> lists the
  elements in iteration order. \<open>OTable d\<close>, \<open>OIndex d\<close> and \<open>OInstance c d\<close> are
  instances of \<^verbatim>\<open>Table\<close>, of \<^verbatim>\<open>Index\<close> and of any other class named \<open>c\<close> that
  has a \<^verbatim>\<open>__dict__\<close>; \<open>d\<close> is the address of that \<^verbatim>\<open>__dict__\<close>. \<open>OOpaque c s\<close> is an
  object of type \<open>c\<close> without \<^verbatim>\<open>__dict__\<close> (bytes, bytearray, frozenset, ...) whose
  \<^verbatim>\<open>str(obj)\<close> is \<open>s\<close>.
\<close>

datatype obj =
    OBasic scalar
  | ODict "(addr \<times> addr) list"
  | OList "addr list"
  | OTuple "addr list"
  | OSet "addr list"
  | OTable addr
  | OIndex addr
  | OInstance string addr
  | OOpaque string string

text \<open>
  A tree-shaped Python value: what \<^verbatim>\<open>convert_to_serializable\<close> returns, what msgpack
  packs and unpacks, and what \<^verbatim>\<open>rehydrate\<close> builds. The argument of \<open>VTable\<close>,
  \<open>VIndex\<close> and \<open>VInstance c\<close> is the instance's \<^verbatim>\<open>__dict__\<close>.
\<close>

datatype pyval =
    VBasic scalar
  | VDict "(pyval \<times> pyval) list"
  | VList "pyval list"
  | VTuple "pyval list"
  | VSet "pyval list"
  | VTable pyval
  | VIndex pyval
  | VInstance string pyval
  | VOpaque string string

text \<open>
  Exceptions, with their message. \<open>LookupError\<close> is raised by the model alone, for an
  address outside the heap, which no Python reference can be. \<open>InvalidKeyIndex\<close> is the
  error of the specification for a key column ordinal outside the columns of the table;
  \<^verbatim>\<open>lstore/db.py\<close> raises it nowhere itself.
\<close>

datatype error =
    ValueError string
  | TypeError string
  | FileNotFoundError string
  | LookupError string
  | InvalidKeyIndex

definition str :: "string \<Rightarrow> pyval" where
  "str s = VBasic (PStr s)"

text \<open>\<^verbatim>\<open>type(obj).__name__\<close>\<close>

fun type_name :: "obj \<Rightarrow> string" where
  "type_name (OBasic PNone) = ''NoneType''"
| "type_name (OBasic (PBool b)) = ''bool''"
| "type_name (OBasic (PInt i)) = ''int''"
| "type_name (OBasic (PFloat x)) = ''float''"
| "type_name (OBasic (PStr s)) = ''str''"
| "type_name (ODict kvs) = ''dict''"
| "type_name (OList xs) = ''list''"
| "type_name (OTuple xs) = ''tuple''"
| "type_name (OSet xs) = ''set''"
| "type_name (OTable d) = ''Table''"
| "type_name (OIndex d) = ''Index''"
| "type_name (OInstance c d) = c"
| "type_name (OOpaque c s) = c"

text \<open>
  Whether a value can be a dict key. Lists, dicts and sets are unhashable; instances hash
  by identity unless their class says otherwise.
\<close>

fun hashable :: "pyval \<Rightarrow> bool" where
  "hashable (VBasic s) = True"
| "hashable (VTuple xs) = list_all hashable xs"
| "hashable (VDict kvs) = False"
| "hashable (VList xs) = False"
| "hashable (VSet xs) = False"
| "hashable v = True"

text \<open>The results of a comprehension, in order: the first exception wins.\<close>

fun sequence :: "(error + 'a) list \<Rightarrow> error + 'a list" where
  "sequence [] = Inr []"
| "sequence (r # rs) =
     (case r of
        Inl e \<Rightarrow> Inl e
      | Inr x \<Rightarrow> (case sequence rs of Inl e \<Rightarrow> Inl e | Inr xs \<Rightarrow> Inr (x # xs)))"

text \<open>
  The dict comprehension \<^verbatim>\<open>{convert(k): convert(v) for k, v in obj.items()}\<close>: for each
  item the key is converted, then the value, then the pair is stored, which raises
  \<^verbatim>\<open>TypeError\<close> on an unhashable key. A key stored twice keeps its place and takes the
  later value.
\<close>

fun dict_comprehension ::
  "((error + pyval) \<times> (error + pyval)) list \<Rightarrow> (pyval \<times> pyval) list
    \<Rightarrow> error + (pyval \<times> pyval) list" where
  "dict_comprehension [] acc = Inr acc"
| "dict_comprehension ((rk, rv) # rest) acc =
     (case rk of
        Inl e \<Rightarrow> Inl e
      | Inr k \<Rightarrow>
          (case rv of
             Inl e \<Rightarrow> Inl e
           | Inr v \<Rightarrow>
               if hashable k then dict_comprehension rest (AList.update k v acc)
               else Inl (TypeError ''unhashable type'')))"

text \<open>The tagged mapping \<^verbatim>\<open>{"__custom_type__": t, "state": s}\<close>.\<close>

definition tagged :: "string \<Rightarrow> pyval \<Rightarrow> pyval" where
  "tagged t s = VDict [(str ''__custom_type__'', str t), (str ''state'', s)]"

section \<open>convert_to_serializable\<close>

text \<open>
  \<^verbatim>\<open>convert_to_serializable(obj, seen)\<close> on the object at address \<open>a\<close> of heap \<open>h\<close>.
  The source adds \<^verbatim>\<open>id(obj)\<close> to the mutable set \<^verbatim>\<open>seen\<close> on entry and removes it
  before every return, so each recursive call runs with \<open>insert a seen\<close> and the caller's
  set is as before when the call returns; an exception leaves the set behind, and
  nothing catches it before the outermost call is left. The set is therefore passed down.
  The recursion ends because every call below an object adds that object's address, one
  of finitely many, to the set.
\<close>

function convert_to_serializable :: "obj list \<Rightarrow> addr set \<Rightarrow> addr \<Rightarrow> error + pyval" where
  "convert_to_serializable h seen a =
     (if length h \<le> a then Inl (LookupError ''no object at this address'')
      else if a \<in> seen then Inr (str (''<recursion: '' @ type_name (h ! a) @ ''>''))
      else
        (case h ! a of
           OBasic s \<Rightarrow> Inr (VBasic s)
         | ODict kvs \<Rightarrow>
             map_sum id VDict
               (dict_comprehension
                  (map (\<lambda>(k, v). (convert_to_serializable h (insert a seen) k,
                                    convert_to_serializable h (insert a seen) v)) kvs) [])
         | OList xs \<Rightarrow>
             map_sum id VList (sequence (map (convert_to_serializable h (insert a seen)) xs))
         | OTuple xs \<Rightarrow>
             map_sum id VList (sequence (map (convert_to_serializable h (insert a seen)) xs))
         | OSet xs \<Rightarrow>
             map_sum id VList (sequence (map (convert_to_serializable h (insert a seen)) xs))
         | OTable d \<Rightarrow>
             map_sum id (tagged ''Table'') (convert_to_serializable h (insert a seen) d)
         | OIndex d \<Rightarrow>
             map_sum id (tagged ''Index'') (convert_to_serializable h (insert a seen) d)
         | OInstance c d \<Rightarrow>
             map_sum id (tagged c) (convert_to_serializable h (insert a seen) d)
         | OOpaque c s \<Rightarrow> Inr (str s)))"
  by pat_completeness auto
termination
proof (relation "measure (\<lambda>(h, seen, a). card ({..<length h} - seen))")
  show "wf (measure (\<lambda>(h, seen, a). card ({..<length h} - seen)))"
    by (rule wf_measure)
qed (auto simp: card_gt_0_iff not_le intro!: diff_Suc_less)

declare convert_to_serializable.simps [simp del]

section \<open>rehydrate\<close>

text \<open>
  \<^verbatim>\<open>d.update(other)\<close> for \<^verbatim>\<open>instance.__dict__.update(rehydrate(state))\<close>. A dict
  argument stores its items in order. Any other iterable must yield sequences of length
  two: a list of two elements, a string of two characters, a dict of two keys.
  \<open>pair_of\<close> reads one such element.
\<close>

fun pair_of :: "pyval \<Rightarrow> error + (pyval \<times> pyval)" where
  "pair_of (VList [k, v]) = Inr (k, v)"
| "pair_of (VTuple [k, v]) = Inr (k, v)"
| "pair_of (VSet [k, v]) = Inr (k, v)"
| "pair_of (VDict [(k, x), (v, y)]) = Inr (k, v)"
| "pair_of (VBasic (PStr [c, d])) = Inr (str [c], str [d])"
| "pair_of (VList xs) = Inl (ValueError ''dictionary update sequence element has the wrong length'')"
| "pair_of (VTuple xs) = Inl (ValueError ''dictionary update sequence element has the wrong length'')"
| "pair_of (VSet xs) = Inl (ValueError ''dictionary update sequence element has the wrong length'')"
| "pair_of (VDict kvs) = Inl (ValueError ''dictionary update sequence element has the wrong length'')"
| "pair_of (VBasic (PStr s)) = Inl (ValueError ''dictionary update sequence element has the wrong length'')"
| "pair_of v = Inl (TypeError ''cannot convert dictionary update sequence element to a sequence'')"

fun update_pairs :: "(pyval \<times> pyval) list \<Rightarrow> pyval list \<Rightarrow> error + (pyval \<times> pyval) list" where
  "update_pairs d [] = Inr d"
| "update_pairs d (x # xs) =
     (case pair_of x of
        Inl e \<Rightarrow> Inl e
      | Inr (k, v) \<Rightarrow>
          if hashable k then update_pairs (AList.update k v d) xs
          else Inl (TypeError ''unhashable type''))"

fun dict_update :: "(pyval \<times> pyval) list \<Rightarrow> pyval \<Rightarrow> error + (pyval \<times> pyval) list" where
  "dict_update d (VDict kvs) = Inr (fold (\<lambda>(k, v). AList.update k v) kvs d)"
| "dict_update d (VList xs) = update_pairs d xs"
| "dict_update d (VTuple xs) = update_pairs d xs"
| "dict_update d (VSet xs) = update_pairs d xs"
| "dict_update d (VBasic (PStr s)) = update_pairs d (map (\<lambda>c. str [c]) s)"
| "dict_update d v = Inl (TypeError ''object is not iterable'')"

text \<open>
  What \<^verbatim>\<open>lstore/db.py\<close> imports and this development takes as parameters:
  \<^verbatim>\<open>msgpack.packb(_, use_bin_type=True)\<close> and \<^verbatim>\<open>msgpack.unpackb(_, raw=False)\<close>
  of the msgpack library, and the constructors of \<^verbatim>\<open>lstore.table.Table\<close> and
  \<^verbatim>\<open>lstore.index.Index\<close>. \<open>Table_noargs\<close> and \<open>Index_noargs\<close> are the calls
  \<^verbatim>\<open>Table()\<close> and \<^verbatim>\<open>Index()\<close> of \<^verbatim>\<open>rehydrate\<close>: the attributes of the fresh
  instance, or the exception of a constructor that needs arguments. \<open>Table_init\<close> is
  \<^verbatim>\<open>Table(name, num_columns, key_index)\<close> of \<^verbatim>\<open>create_table\<close>: it allocates the new
  table in the heap and returns its address.
\<close>

record env =
  packb :: "pyval \<Rightarrow> error + bytes"
  unpackb :: "bytes \<Rightarrow> error + pyval"
  Table_noargs :: "error + (pyval \<times> pyval) list"
  Index_noargs :: "error + (pyval \<times> pyval) list"
  Table_init :: "string \<Rightarrow> int \<Rightarrow> int \<Rightarrow> obj list \<Rightarrow> error + (addr \<times> obj list)"

text \<open>
  \<^verbatim>\<open>instance = cls(); instance.__dict__.update(rehydrate(state)); return instance\<close>:
  the constructor runs first, then the state is rehydrated, then the attributes are
  updated.
\<close>

definition instantiate ::
  "(pyval \<Rightarrow> pyval) \<Rightarrow> error + (pyval \<times> pyval) list \<Rightarrow> error + pyval \<Rightarrow> error + pyval" where
  "instantiate cls fresh state =
     (case fresh of
        Inl e \<Rightarrow> Inl e
      | Inr d \<Rightarrow>
          (case state of
             Inl e \<Rightarrow> Inl e
           | Inr s \<Rightarrow> map_sum id (\<lambda>d'. cls (VDict d')) (dict_update d s)))"

text \<open>
  \<^verbatim>\<open>rehydrate(obj)\<close>. A dict with the key \<^verbatim>\<open>"__custom_type__"\<close> whose value is
  \<^verbatim>\<open>"Table"\<close> or \<^verbatim>\<open>"Index"\<close> becomes an instance; \<^verbatim>\<open>obj.get("state", {})\<close> is
  rehydrated, and \<^verbatim>\<open>rehydrate({})\<close> is the empty dict. Every other dict keeps its keys and
  has its values rehydrated; a list has its elements rehydrated; anything else is returned
  as it is. The three lemmas bound the size of a part of a value, for the termination
  proof.
\<close>

lemma size_dict_item: "(k, v) \<in> set kvs \<Longrightarrow> size v < Suc (size_list (size_prod size size) kvs)"
  for k v :: pyval
  using size_list_estimation' [of "(k, v)" kvs "size v" "size_prod size size"] by simp

lemma size_dict_key: "(k, v) \<in> set kvs \<Longrightarrow> size k < Suc (size_list (size_prod size size) kvs)"
  for k v :: pyval
  using size_list_estimation' [of "(k, v)" kvs "size k" "size_prod size size"] by simp

lemma size_list_elem: "x \<in> set xs \<Longrightarrow> size x < Suc (size_list size xs)"
  for x :: pyval
  using size_list_estimation' [of x xs "size x" size] by simp

function rehydrate :: "'a env_scheme \<Rightarrow> pyval \<Rightarrow> error + pyval" where
  "rehydrate env (VDict kvs) =
     (case map_of kvs (str ''__custom_type__'') of
        Some typ \<Rightarrow>
          if typ = str ''Table'' then
            instantiate VTable (Table_noargs env)
              (case map_of kvs (str ''state'') of
                 None \<Rightarrow> Inr (VDict [])
               | Some state \<Rightarrow> rehydrate env state)
          else if typ = str ''Index'' then
            instantiate VIndex (Index_noargs env)
              (case map_of kvs (str ''state'') of
                 None \<Rightarrow> Inr (VDict [])
               | Some state \<Rightarrow> rehydrate env state)
          else
            map_sum id VDict
              (sequence (map (\<lambda>(k, v). map_sum id (Pair k) (rehydrate env v)) kvs))
      | None \<Rightarrow>
          map_sum id VDict
            (sequence (map (\<lambda>(k, v). map_sum id (Pair k) (rehydrate env v)) kvs)))"
| "rehydrate env (VList xs) = map_sum id VList (sequence (map (rehydrate env) xs))"
| "rehydrate env (VBasic s) = Inr (VBasic s)"
| "rehydrate env (VTuple xs) = Inr (VTuple xs)"
| "rehydrate env (VSet xs) = Inr (VSet xs)"
| "rehydrate env (VTable d) = Inr (VTable d)"
| "rehydrate env (VIndex d) = Inr (VIndex d)"
| "rehydrate env (VInstance c d) = Inr (VInstance c d)"
| "rehydrate env (VOpaque c s) = Inr (VOpaque c s)"
  by pat_completeness auto
termination
  by (relation "measure (\<lambda>(env, v). size v)")
     (auto simp: size_dict_item size_list_elem size_dict_item [OF map_of_SomeD])

declare rehydrate.simps(1) [simp del]

section \<open>The Database class\<close>

text \<open>
  Allocation of a tree-shaped value in the heap: every node becomes a new object, the
  parts before the whole.
\<close>

definition new :: "obj \<Rightarrow> obj list \<Rightarrow> addr \<times> obj list" where
  "new ob h = (length h, h @ [ob])"

fun in_turn :: "('s \<Rightarrow> 'a \<times> 's) list \<Rightarrow> 's \<Rightarrow> 'a list \<times> 's" where
  "in_turn [] s = ([], s)"
| "in_turn (f # fs) s =
     (case f s of (x, s') \<Rightarrow> (case in_turn fs s' of (xs, s'') \<Rightarrow> (x # xs, s'')))"

fun alloc :: "pyval \<Rightarrow> obj list \<Rightarrow> addr \<times> obj list" where
  "alloc (VBasic s) = new (OBasic s)"
| "alloc (VDict kvs) =
     (\<lambda>h. case in_turn (map (\<lambda>(k, v) h. case alloc k h of (ka, h') \<Rightarrow>
                 (case alloc v h' of (va, h'') \<Rightarrow> ((ka, va), h''))) kvs) h of
             (items, h') \<Rightarrow> new (ODict items) h')"
| "alloc (VList xs) = (\<lambda>h. case in_turn (map alloc xs) h of (as, h') \<Rightarrow> new (OList as) h')"
| "alloc (VTuple xs) = (\<lambda>h. case in_turn (map alloc xs) h of (as, h') \<Rightarrow> new (OTuple as) h')"
| "alloc (VSet xs) = (\<lambda>h. case in_turn (map alloc xs) h of (as, h') \<Rightarrow> new (OSet as) h')"
| "alloc (VTable d) = (\<lambda>h. case alloc d h of (da, h') \<Rightarrow> new (OTable da) h')"
| "alloc (VIndex d) = (\<lambda>h. case alloc d h of (da, h') \<Rightarrow> new (OIndex da) h')"
| "alloc (VInstance c d) = (\<lambda>h. case alloc d h of (da, h') \<Rightarrow> new (OInstance c da) h')"
| "alloc (VOpaque c s) = new (OOpaque c s)"


text \<open>
  Modelled from the spec: the class \<^verbatim>\<open>Bufferpool\<close> of \<^verbatim>\<open>lstore/bufferpool.py\<close>, which
  \<^verbatim>\<open>lstore/db.py\<close> imports. A frame is "page identifier, page bytes, pin count, dirty
  flag, recency marker"; the pool is "constructed with a fixed frame capacity";
  \<^verbatim>\<open>flush_all\<close> "writes every dirty, resident frame to its backing location and clears
  dirty flags; does not evict". \<open>page_store\<close> is that backing location.
\<close>

record frame =
  page_id :: nat
  page_bytes :: bytes
  pin_count :: nat
  dirty :: bool
  recency :: nat

record bufferpool =
  capacity :: int
  frames :: "frame list"
  page_store :: "(nat \<times> bytes) list"

definition Bufferpool :: "int \<Rightarrow> bufferpool" where
  "Bufferpool bufferpool_size = \<lparr>capacity = bufferpool_size, frames = [], page_store = []\<rparr>"

definition flush_all :: "bufferpool \<Rightarrow> bufferpool" where
  "flush_all bp =
     bp\<lparr>page_store :=
          fold (\<lambda>f store. if dirty f then AList.update (page_id f) (page_bytes f) store else store)
            (frames bp) (page_store bp),
        frames := map (\<lambda>f. f\<lparr>dirty := False\<rparr>) (frames bp)\<rparr>"

text \<open>
  The state the methods of \<^verbatim>\<open>Database\<close> act on: the attributes \<^verbatim>\<open>self.tables\<close> (a dict
  from table name to table object, in insertion order), \<^verbatim>\<open>self.db_path\<close> and
  \<^verbatim>\<open>self.bufferpool\<close>; the object heap; the file system; and the lines printed. A
  directory is known by the path string the program uses for it and lists its files, name
  and content, in the order of \<^verbatim>\<open>os.listdir\<close>; \<^verbatim>\<open>os.path.join(path, name)\<close> is the
  entry \<open>name\<close> of directory \<open>path\<close>, so a table name holding a path separator is
  outside this model.
\<close>

record world =
  tables :: "(string \<times> addr) list"
  db_path :: "string option"
  bufferpool :: bufferpool
  heap :: "obj list"
  fs :: "string \<Rightarrow> (string \<times> bytes) list option"
  stdout :: "string list"

definition print :: "string \<Rightarrow> world \<Rightarrow> world" where
  "print line w = w\<lparr>stdout := stdout w @ [line]\<rparr>"

text \<open>\<^verbatim>\<open>Database.__init__(self, bufferpool_size=10)\<close>\<close>

definition Database_init :: "int \<Rightarrow> world \<Rightarrow> world" where
  "Database_init bufferpool_size w =
     w\<lparr>tables := [], db_path := None, bufferpool := Bufferpool bufferpool_size\<rparr>"

text \<open>\<^verbatim>\<open>filename.endswith(suffix)\<close>\<close>

definition endswith :: "string \<Rightarrow> string \<Rightarrow> bool" where
  "endswith s suffix \<longleftrightarrow>
     length suffix \<le> length s \<and> drop (length s - length suffix) s = suffix"

text \<open>
  The loop of \<^verbatim>\<open>Database.open\<close> over \<^verbatim>\<open>os.listdir(path)\<close>. The table name is
  \<^verbatim>\<open>filename[:-4]\<close>; an empty file prints a warning and the loop goes on; an exception
  of \<^verbatim>\<open>msgpack.unpackb\<close> or of \<^verbatim>\<open>rehydrate\<close> leaves the loop with the tables loaded so
  far.
\<close>

fun load_tables :: "'a env_scheme \<Rightarrow> (string \<times> bytes) list \<Rightarrow> world \<Rightarrow> (error + unit) \<times> world" where
  "load_tables env [] w = (Inr (), w)"
| "load_tables env ((filename, data) # rest) w =
     (if endswith filename ''.tbl'' then
        (if data = [] then
           load_tables env rest (print (''Warning: '' @ filename @ '' is empty. Skipping.'') w)
         else
           (case unpackb env data of
              Inl e \<Rightarrow> (Inl e, w)
            | Inr raw_state \<Rightarrow>
                (case rehydrate env raw_state of
                   Inl e \<Rightarrow> (Inl e, w)
                 | Inr table \<Rightarrow>
                     (case alloc table (heap w) of
                        (t, h') \<Rightarrow>
                          load_tables env rest
                            (w\<lparr>heap := h',
                               tables := AList.update (take (length filename - 4) filename) t
                                           (tables w)\<rparr>)))))
      else load_tables env rest w)"

text \<open>
  \<^verbatim>\<open>Database.open(self, path)\<close>. \<^verbatim>\<open>os.path.exists('')\<close> is false and
  \<^verbatim>\<open>os.makedirs('')\<close> raises \<^verbatim>\<open>FileNotFoundError\<close>. When the directory is absent the
  method returns before \<^verbatim>\<open>self.tables = {}\<close>.
\<close>

definition Database_open :: "'a env_scheme \<Rightarrow> string \<Rightarrow> world \<Rightarrow> (error + unit) \<times> world" where
  "Database_open env path w0 =
     (let w = w0\<lparr>db_path := Some path\<rparr> in
      case (if path = [] then None else fs w path) of
        None \<Rightarrow>
          if path = [] then (Inl (FileNotFoundError ''No such file or directory''), w)
          else (Inr (), print ''Database directory created.'' (w\<lparr>fs := (fs w)(path \<mapsto> [])\<rparr>))
      | Some listing \<Rightarrow>
          (case load_tables env listing (w\<lparr>tables := []\<rparr>) of
             (Inl e, w') \<Rightarrow> (Inl e, w')
           | (Inr u, w') \<Rightarrow> (Inr (), print ''Database loaded from disk.'' w')))"

text \<open>
  The loop of \<^verbatim>\<open>Database.close\<close> over \<^verbatim>\<open>self.tables.items()\<close>. Opening the file with
  mode \<^verbatim>\<open>"wb"\<close> creates it or truncates it, and fails when the directory does not exist;
  the table is converted and packed while the file is open, and an exception of either
  leaves the loop with the file empty.
\<close>

definition write_file :: "string \<Rightarrow> string \<Rightarrow> bytes \<Rightarrow> world \<Rightarrow> world" where
  "write_file dir name data w =
     w\<lparr>fs := (fs w)(dir \<mapsto> AList.update name data (case fs w dir of None \<Rightarrow> [] | Some l \<Rightarrow> l))\<rparr>"

fun save_tables :: "'a env_scheme \<Rightarrow> string \<Rightarrow> (string \<times> addr) list \<Rightarrow> world \<Rightarrow> (error + unit) \<times> world" where
  "save_tables env dir [] w = (Inr (), w)"
| "save_tables env dir ((table_name, table) # rest) w =
     (case fs w dir of
        None \<Rightarrow> (Inl (FileNotFoundError ''No such file or directory''), w)
      | Some listing \<Rightarrow>
          (let w' = write_file dir (table_name @ ''.tbl'') [] w in
           case convert_to_serializable (heap w) {} table of
             Inl e \<Rightarrow> (Inl e, w')
           | Inr serializable_state \<Rightarrow>
               (case packb env serializable_state of
                  Inl e \<Rightarrow> (Inl e, w')
                | Inr packed \<Rightarrow>
                    save_tables env dir rest (write_file dir (table_name @ ''.tbl'') packed w'))))"

text \<open>
  \<^verbatim>\<open>Database.close(self)\<close>. \<^verbatim>\<open>not self.db_path\<close> holds for \<^verbatim>\<open>None\<close> and for the
  empty string.
\<close>

definition Database_close :: "'a env_scheme \<Rightarrow> world \<Rightarrow> (error + unit) \<times> world" where
  "Database_close env w =
     (case db_path w of
        None \<Rightarrow> (Inl (ValueError ''Database path is not set.''), w)
      | Some path \<Rightarrow>
          if path = [] then (Inl (ValueError ''Database path is not set.''), w)
          else save_tables env path (tables w) w)"

text \<open>\<^verbatim>\<open>Database.create_table(self, name, num_columns, key_index)\<close>\<close>

definition Database_create_table ::
  "'a env_scheme \<Rightarrow> string \<Rightarrow> int \<Rightarrow> int \<Rightarrow> world \<Rightarrow> (error + addr) \<times> world" where
  "Database_create_table env name num_columns key_index w =
     (case Table_init env name num_columns key_index (heap w) of
        Inl e \<Rightarrow> (Inl e, w)
      | Inr (table, h') \<Rightarrow>
          (Inr table, w\<lparr>heap := h', tables := AList.update name table (tables w)\<rparr>))"

text \<open>
  \<^verbatim>\<open>Database.drop_table(self, name)\<close>. The table leaves \<^verbatim>\<open>self.tables\<close> first;
  \<^verbatim>\<open>os.path.join(None, ...)\<close> raises \<^verbatim>\<open>TypeError\<close>, and \<^verbatim>\<open>os.remove\<close> raises
  \<^verbatim>\<open>FileNotFoundError\<close> when there is no such file.
\<close>

definition Database_drop_table :: "string \<Rightarrow> world \<Rightarrow> (error + unit) \<times> world" where
  "Database_drop_table name w =
     (if name \<in> fst ` set (tables w) then
        (let w' = w\<lparr>tables := AList.delete name (tables w)\<rparr> in
         case db_path w' of
           None \<Rightarrow> (Inl (TypeError ''expected str, bytes or os.PathLike object, not NoneType''), w')
         | Some path \<Rightarrow>
             (case fs w' path of
                None \<Rightarrow> (Inl (FileNotFoundError ''No such file or directory''), w')
              | Some listing \<Rightarrow>
                  if name @ ''.tbl'' \<in> fst ` set listing then
                    (Inr (), w'\<lparr>fs := (fs w')(path \<mapsto> AList.delete (name @ ''.tbl'') listing)\<rparr>)
                  else (Inl (FileNotFoundError ''No such file or directory''), w')))
      else (Inr (), w))"

text \<open>\<^verbatim>\<open>Database.get_table(self, name)\<close>: \<^verbatim>\<open>self.tables.get(name, None)\<close>\<close>

definition Database_get_table :: "string \<Rightarrow> world \<Rightarrow> addr option" where
  "Database_get_table name w = map_of (tables w) name"


section \<open>Concrete inputs\<close>

text \<open>
  Modelled from the spec: the constructor \<^verbatim>\<open>Table(name, num_columns, key_index)\<close> of
  \<^verbatim>\<open>lstore/table.py\<close>, which is not part of \<^verbatim>\<open>lstore/db.py\<close>. \<^verbatim>\<open>create_table\<close> does
  nothing with its arguments but hand them to this constructor, so what the specification
  says of \<^verbatim>\<open>create_table(name, num_columns, key_index)\<close> is said of it: it "fails with
  \<^verbatim>\<open>InvalidKeyIndex\<close> if \<^verbatim>\<open>key_index\<close> is outside \<^verbatim>\<open>[0, num_columns)\<close>", and otherwise
  builds "a new empty table" with the "table metadata: name, number of columns, key column
  ordinal, next-RID counter" and the primary-key Index the table owns, empty.
\<close>

definition Table_spec :: "string \<Rightarrow> int \<Rightarrow> int \<Rightarrow> obj list \<Rightarrow> error + (addr \<times> obj list)" where
  "Table_spec name num_columns key_index h =
     (if 0 \<le> key_index \<and> key_index < num_columns then
        Inr (alloc (VTable (VDict
          [(str ''name'', str name),
           (str ''num_columns'', VBasic (PInt num_columns)),
           (str ''key'', VBasic (PInt key_index)),
           (str ''next_rid'', VBasic (PInt 0)),
           (str ''index'', VIndex (VDict []))])) h)
      else Inl InvalidKeyIndex)"

text \<open>
  An environment for running the methods: \<open>Table_spec\<close> as the constructor, classes whose
  fresh instances have no attribute, and a stand-in for msgpack that packs every value to
  one byte and unpacks every blob to \<open>v\<close>.
\<close>

definition spec_env :: "pyval \<Rightarrow> env" where
  "spec_env v =
     \<lparr>packb = (\<lambda>x. Inr [1]), unpackb = (\<lambda>b. Inr v),
      Table_noargs = Inr [], Index_noargs = Inr [], Table_init = Table_spec\<rparr>"

text \<open>\<^verbatim>\<open>Database()\<close> in a process with no other object and an empty file system.\<close>

definition Database0 :: world where
  "Database0 =
     \<lparr>tables = [], db_path = None, bufferpool = Bufferpool 10, heap = [],
      fs = (\<lambda>p. None), stdout = []\<rparr>"


text \<open>The same after \<^verbatim>\<open>create_table("T", 2, 0)\<close>.\<close>

definition World_T :: world where
  "World_T = snd (Database_create_table (spec_env (VBasic PNone)) ''T'' 2 0 Database0)"

text \<open>
  The same with \<^verbatim>\<open>db_path\<close> set to \<^verbatim>\<open>"db"\<close>, a directory that holds the table's file.
\<close>

definition World_saved :: world where
  "World_saved = World_T\<lparr>db_path := Some ''db'', fs := (\<lambda>p. None)(''db'' \<mapsto> [(''T.tbl'', [1])])\<rparr>"

text \<open>
  \<^verbatim>\<open>Database()\<close> beside a directory \<^verbatim>\<open>"db"\<close> that holds an empty table file, a table
  file with content and a file that is no table file; and an environment whose msgpack
  unpacks every blob to a tagged table of one attribute.
\<close>

definition World_empty_file :: world where
  "World_empty_file =
     Database0\<lparr>fs := (\<lambda>p. None)(''db'' \<mapsto> [(''A.tbl'', []), (''B.tbl'', [5]), (''notes.txt'', [7])])\<rparr>"

definition B_env :: env where
  "B_env = spec_env (tagged ''Table'' (VDict [(str ''name'', str ''B'')]))"

section \<open>Database.get_table\<close>

text \<open>
  \<^verbatim>\<open>get_table\<close> is a dict lookup with a default and has no failing path: the result type
  has no error. It is absent exactly when no table is registered under \<open>name\<close>, and
  otherwise it is the table registered under \<open>name\<close>, as after \<^verbatim>\<open>create_table\<close>. On a
  database that \<^verbatim>\<open>Database()\<close> has just made, \<^verbatim>\<open>open\<close> on a directory that did not exist
  leaves every name absent.
\<close>

lemma get_table_registered:
  "(Database_get_table name w = None \<longleftrightarrow> name \<notin> fst ` set (tables w))
   \<and> (\<forall>t. Database_get_table name w = Some t \<longrightarrow> (name, t) \<in> set (tables w))
   \<and> (\<forall>t w'. Database_create_table env name num_columns key_index w = (Inr t, w')
         \<longrightarrow> Database_get_table name w' = Some t)
   \<and> (fs w path = None
         \<longrightarrow> Database_get_table name (snd (Database_open env path (Database_init n w))) = None)"
proof (intro conjI allI impI)
  show "Database_get_table name w = None \<longleftrightarrow> name \<notin> fst ` set (tables w)"
    by (simp add: Database_get_table_def map_of_eq_None_iff)
  show "(name, t) \<in> set (tables w)" if "Database_get_table name w = Some t" for t
    using that by (simp add: Database_get_table_def map_of_SomeD)
  show "Database_get_table name w' = Some t"
    if "Database_create_table env name num_columns key_index w = (Inr t, w')" for t w'
    using that
    by (auto simp: Database_create_table_def Database_get_table_def update_conv'
        split: sum.splits prod.splits)
  show "Database_get_table name (snd (Database_open env path (Database_init n w))) = None"
    if "fs w path = None"
    using that
    by (simp add: Database_open_def Database_init_def Database_get_table_def print_def Let_def)
qed

text \<open>
  Claim C10: \<^verbatim>\<open>get_table(name)\<close> never raises and returns the registered table or an
  absent value; in particular, after \<^verbatim>\<open>open\<close> on a fresh (previously absent) directory,
  \<^verbatim>\<open>get_table\<close> returns absent for every name. The second part fails on the code. When the
  directory is absent, \<^verbatim>\<open>open\<close> creates it and returns before the statement
  \<^verbatim>\<open>self.tables = {}\<close> that the branch for an existing directory runs. After
  \<^verbatim>\<open>Database(); create_table("T", 2, 0); open("fresh")\<close>, with no directory \<^verbatim>\<open>"fresh"\<close>
  before, \<^verbatim>\<open>open\<close> returns normally and \<^verbatim>\<open>get_table("T")\<close> is the table created, not
  absent; had the directory existed and been empty, \<^verbatim>\<open>get_table("T")\<close> would be absent.
\<close>

theorem get_table_after_open_fresh:
  "fs World_T ''fresh'' = None
   \<and> fst (Database_open (spec_env (VBasic PNone)) ''fresh'' World_T) = Inr ()
   \<and> fs (snd (Database_open (spec_env (VBasic PNone)) ''fresh'' World_T)) ''fresh'' = Some []
   \<and> Database_get_table ''T'' (snd (Database_open (spec_env (VBasic PNone)) ''fresh'' World_T))
       = Some 12
   \<and> Database_get_table ''T''
        (snd (Database_open (spec_env (VBasic PNone)) ''fresh''
           (World_T\<lparr>fs := (\<lambda>p. None)(''fresh'' \<mapsto> [])\<rparr>))) = None"
  by (simp add: Database_open_def Database_get_table_def World_T_def Database_create_table_def
      spec_env_def Table_spec_def Database0_def new_def str_def print_def Let_def)

section \<open>Database.create_table\<close>

text \<open>
  \<^verbatim>\<open>create_table\<close> examines none of its arguments: it hands the three of them to the
  \<^verbatim>\<open>Table\<close> constructor. When the constructor raises, \<^verbatim>\<open>create_table\<close> raises the same
  exception before \<^verbatim>\<open>self.tables[name] = table\<close> and the database is as before; when the
  constructor returns a table, \<^verbatim>\<open>create_table\<close> returns it and \<^verbatim>\<open>get_table(name)\<close> finds
  it.
\<close>

lemma create_table_constructor:
  "(Table_init env name num_columns key_index (heap w) = Inl e
      \<longrightarrow> Database_create_table env name num_columns key_index w = (Inl e, w))
   \<and> (Table_init env name num_columns key_index (heap w) = Inr (t, h')
      \<longrightarrow> fst (Database_create_table env name num_columns key_index w) = Inr t
        \<and> Database_get_table name
             (snd (Database_create_table env name num_columns key_index w)) = Some t)"
  by (simp add: Database_create_table_def Database_get_table_def update_conv')



text \<open>
  Claim C5, as stated: \<^verbatim>\<open>create_table\<close> fails with \<^verbatim>\<open>DuplicateTable\<close> when a table named
  \<open>name\<close> is already registered, and the registered table stays. After
  \<^verbatim>\<open>create_table("T", 2, 0)\<close> on a new database, \<^verbatim>\<open>create_table("T", 3, 0)\<close> returns a
  new table, and \<^verbatim>\<open>get_table("T")\<close> is the new table, not the first one.
\<close>

theorem create_table_replaces_counterexample:
  "Database_get_table ''T'' World_T = Some 12
   \<and> fst (Database_create_table (spec_env (VBasic PNone)) ''T'' 3 0 World_T) = Inr 25
   \<and> Database_get_table ''T''
        (snd (Database_create_table (spec_env (VBasic PNone)) ''T'' 3 0 World_T)) = Some 25"
  by (simp add: World_T_def Database_create_table_def Database_get_table_def spec_env_def
      Table_spec_def Database0_def new_def str_def)

text \<open>
  Claim C5, amended. When a table named \<open>name\<close> is already registered and the constructor
  returns a table, \<^verbatim>\<open>create_table\<close> does not fail: it returns the new table and stores it
  under \<open>name\<close> in place of the registered one; every other name keeps its table, and the
  order of the names is as before.
\<close>

theorem create_table_replaces:
  "name \<in> fst ` set (tables w) \<Longrightarrow>
   Table_init env name num_columns key_index (heap w) = Inr (t, h') \<Longrightarrow>
   fst (Database_create_table env name num_columns key_index w) = Inr t
   \<and> map_of (tables (snd (Database_create_table env name num_columns key_index w)))
       = (map_of (tables w))(name \<mapsto> t)
   \<and> map fst (tables (snd (Database_create_table env name num_columns key_index w)))
       = map fst (tables w)"
  by (simp add: Database_create_table_def update_conv' update_keys)

theorem create_table_replaces_witness:
  "''T'' \<in> fst ` set (tables World_T)
   \<and> Table_init (spec_env (VBasic PNone)) ''T'' 3 0 (heap World_T)
       = Inr (25, heap (snd (Database_create_table (spec_env (VBasic PNone)) ''T'' 3 0 World_T)))
   \<and> fst (Database_create_table (spec_env (VBasic PNone)) ''T'' 3 0 World_T) = Inr 25
   \<and> map_of (tables (snd (Database_create_table (spec_env (VBasic PNone)) ''T'' 3 0 World_T)))
       = (map_of (tables World_T))(''T'' \<mapsto> 25)"
proof -
  have a: "''T'' \<in> fst ` set (tables World_T)"
    by (simp add: World_T_def Database_create_table_def spec_env_def Table_spec_def
        Database0_def new_def str_def)
  have b: "Table_init (spec_env (VBasic PNone)) ''T'' 3 0 (heap World_T)
       = Inr (25, heap (snd (Database_create_table (spec_env (VBasic PNone)) ''T'' 3 0 World_T)))"
    by (simp add: World_T_def Database_create_table_def spec_env_def Table_spec_def
        Database0_def new_def str_def)
  show ?thesis
    using a b create_table_replaces [OF a b] by simp
qed

section \<open>Database.drop_table\<close>

text \<open>
  \<^verbatim>\<open>drop_table(name)\<close> on a name that is not registered raises nothing and changes
  nothing. On a registered name it removes the name from the table mapping, all other names
  keeping their tables; when the file \<open>name.tbl\<close> is in the directory \<^verbatim>\<open>db_path\<close>, it
  then returns normally with that file deleted and every other file as it was.
\<close>

lemma drop_table_of_saved_table:
  "(name \<notin> fst ` set (tables w) \<longrightarrow> Database_drop_table name w = (Inr (), w))
   \<and> (name \<in> fst ` set (tables w) \<longrightarrow>
        Database_get_table name (snd (Database_drop_table name w)) = None
        \<and> (\<forall>other. other \<noteq> name \<longrightarrow>
              Database_get_table other (snd (Database_drop_table name w))
                = Database_get_table other w)
        \<and> (\<forall>path listing. db_path w = Some path \<longrightarrow> fs w path = Some listing \<longrightarrow>
              name @ ''.tbl'' \<in> fst ` set listing \<longrightarrow>
                fst (Database_drop_table name w) = Inr ()
                \<and> fs (snd (Database_drop_table name w))
                    = (fs w)(path \<mapsto> AList.delete (name @ ''.tbl'') listing)
                \<and> map_of (AList.delete (name @ ''.tbl'') listing) (name @ ''.tbl'') = None
                \<and> (\<forall>f. f \<noteq> name @ ''.tbl'' \<longrightarrow>
                      map_of (AList.delete (name @ ''.tbl'') listing) f = map_of listing f)))"
  by (auto simp: Database_drop_table_def Database_get_table_def Let_def delete_conv'
      split: option.splits)

text \<open>
  \<^verbatim>\<open>Database(); open("db"); create_table("T", 2, 0)\<close>, with no directory \<^verbatim>\<open>"db"\<close>
  before: the table is registered and no file \<^verbatim>\<open>T.tbl\<close> exists, since only \<^verbatim>\<open>close\<close>
  writes one.
\<close>

definition World_unsaved :: world where
  "World_unsaved =
     snd (Database_create_table (spec_env (VBasic PNone)) ''T'' 2 0
       (snd (Database_open (spec_env (VBasic PNone)) ''db'' Database0)))"

text \<open>
  Claim C9: \<^verbatim>\<open>drop_table(name)\<close> removes the named table from the table mapping and
  deletes its backing file, and is a no-op on a name that is not registered. The method
  deletes the entry and then calls \<^verbatim>\<open>os.remove\<close> without a test that the file exists or
  that a path was set. For a table registered and not yet written by \<^verbatim>\<open>close\<close>,
  \<^verbatim>\<open>drop_table("T")\<close> raises \<^verbatim>\<open>FileNotFoundError\<close>, the table already gone from the
  mapping; on a database that was never opened it raises \<^verbatim>\<open>TypeError\<close>, from
  \<^verbatim>\<open>os.path.join(None, "T.tbl")\<close>.
\<close>

theorem drop_table_unsaved_table:
  "Database_get_table ''T'' World_unsaved = Some 12
   \<and> db_path World_unsaved = Some ''db''
   \<and> fs World_unsaved ''db'' = Some []
   \<and> fst (Database_drop_table ''T'' World_unsaved)
       = Inl (FileNotFoundError ''No such file or directory'')
   \<and> Database_get_table ''T'' (snd (Database_drop_table ''T'' World_unsaved)) = None
   \<and> Database_get_table ''T'' World_T = Some 12
   \<and> db_path World_T = None
   \<and> fst (Database_drop_table ''T'' World_T)
       = Inl (TypeError ''expected str, bytes or os.PathLike object, not NoneType'')
   \<and> Database_get_table ''T'' (snd (Database_drop_table ''T'' World_T)) = None"
  by (simp add: World_unsaved_def World_T_def Database_drop_table_def Database_get_table_def
      Database_open_def Database_create_table_def spec_env_def Table_spec_def Database0_def
      new_def str_def print_def Let_def)

section \<open>Database.open\<close>

text \<open>
  What \<^verbatim>\<open>Database.open\<close> prints is written and never read, so two runs are compared
  with the printed lines left out.
\<close>

definition quiet :: "world \<Rightarrow> world" where
  "quiet w = w\<lparr>stdout := []\<rparr>"

definition silently :: "(error + unit) \<times> world \<Rightarrow> (error + unit) \<times> world" where
  "silently r = (fst r, quiet (snd r))"

lemma silently_Pair [simp]: "silently (r, w) = (r, quiet w)"
  by (simp add: silently_def)

lemma quiet_stdout [simp]: "quiet (w\<lparr>stdout := s\<rparr>) = quiet w"
  by (simp add: quiet_def)

lemma load_tables_stdout:
  "silently (load_tables env es (w\<lparr>stdout := s\<rparr>)) = silently (load_tables env es w)"
proof (induction es arbitrary: w s)
  case Nil
  show ?case by simp
next
  case (Cons e es)
  obtain f d where e: "e = (f, d)" by (cases e)
  show ?case
  proof (cases "endswith f ''.tbl''")
    case False
    then show ?thesis using Cons.IH e by simp
  next
    case tbl: True
    show ?thesis
    proof (cases "d = []")
      case True
      have "silently (load_tables env es (w\<lparr>stdout := s @ [l]\<rparr>))
          = silently (load_tables env es (w\<lparr>stdout := stdout w @ [l]\<rparr>))" for l
        using Cons.IH [where w = w and s = "s @ [l]"] Cons.IH [where w = w and s = "stdout w @ [l]"] by simp
      then show ?thesis using True tbl e by (simp add: print_def)
    next
      case data: False
      show ?thesis
      proof (cases "unpackb env d")
        case (Inl x)
        then show ?thesis using data tbl e by simp
      next
        case (Inr raw)
        show ?thesis
        proof (cases "rehydrate env raw")
          case (Inl x)
          then show ?thesis using Inr data tbl e by simp
        next
          case table: (Inr table)
          obtain t h' where al: "alloc table (heap w) = (t, h')" by (cases "alloc table (heap w)")
          have eq: "w\<lparr>stdout := s, heap := h', tables := tt\<rparr>
              = (w\<lparr>heap := h', tables := tt\<rparr>)\<lparr>stdout := s\<rparr>" for tt
            by (cases w) simp
          have "silently (load_tables env es (w\<lparr>stdout := s, heap := h', tables := tt\<rparr>))
            = silently (load_tables env es (w\<lparr>heap := h', tables := tt\<rparr>))" for tt
            unfolding eq by (rule Cons.IH)
          then show ?thesis using table Inr data tbl e al by simp
        qed
      qed
    qed
  qed
qed


lemma load_tables_append:
  "load_tables env (xs @ ys) w =
     (case load_tables env xs w of
        (Inl e, w') \<Rightarrow> (Inl e, w')
      | (Inr u, w') \<Rightarrow> load_tables env ys w')"
proof (induction xs arbitrary: w)
  case Nil
  show ?case by simp
next
  case (Cons x xs)
  obtain f d where x: "x = (f, d)" by (cases x)
  show ?case
  proof (cases "endswith f ''.tbl'' \<and> d \<noteq> []")
    case False
    then show ?thesis using Cons.IH x by auto
  next
    case True
    show ?thesis
    proof (cases "unpackb env d")
      case (Inl e)
      then show ?thesis using True x by simp
    next
      case (Inr raw)
      show ?thesis
      proof (cases "rehydrate env raw")
        case (Inl e)
        then show ?thesis using Inr True x by simp
      next
        case table: (Inr table)
        obtain t h' where "alloc table (heap w) = (t, h')" by (cases "alloc table (heap w)")
        then show ?thesis using table Inr True x Cons.IH by simp
      qed
    qed
  qed
qed

lemma load_tables_fs:
  "load_tables env es (w\<lparr>fs := F\<rparr>)
     = (fst (load_tables env es w), (snd (load_tables env es w))\<lparr>fs := F\<rparr>)"
proof (induction es arbitrary: w)
  case Nil
  show ?case by simp
next
  case (Cons x es)
  obtain f d where x: "x = (f, d)" by (cases x)
  have p: "print l (w\<lparr>fs := F\<rparr>) = (print l w)\<lparr>fs := F\<rparr>" for l
    by (simp add: print_def)
  have u: "w\<lparr>fs := F, heap := hh, tables := tt\<rparr> = (w\<lparr>heap := hh, tables := tt\<rparr>)\<lparr>fs := F\<rparr>"
    for hh tt by (cases w) simp
  show ?case
  proof (cases "endswith f ''.tbl'' \<and> d \<noteq> []")
    case False
    then show ?thesis using Cons.IH x p by auto
  next
    case True
    show ?thesis
    proof (cases "unpackb env d")
      case (Inl e)
      then show ?thesis using True x by simp
    next
      case (Inr raw)
      show ?thesis
      proof (cases "rehydrate env raw")
        case (Inl e)
        then show ?thesis using Inr True x by simp
      next
        case table: (Inr table)
        obtain t h' where "alloc table (heap w) = (t, h')" by (cases "alloc table (heap w)")
        then show ?thesis using table Inr True x by (simp add: u Cons.IH)
      qed
    qed
  qed
qed

lemma load_tables_stdout_mono:
  "set (stdout w) \<subseteq> set (stdout (snd (load_tables env es w)))"
proof (induction es arbitrary: w)
  case Nil
  show ?case by simp
next
  case (Cons x es)
  obtain f d where x: "x = (f, d)" by (cases x)
  have a: "set (stdout w) \<subseteq> set (stdout (snd (load_tables env es (print l w))))" for l
    using Cons.IH [of "print l w"] by (auto simp: print_def)
  have b: "set (stdout w) \<subseteq> set (stdout (snd (load_tables env es (w\<lparr>heap := hh, tables := tt\<rparr>))))"
    for hh tt
    using Cons.IH [of "w\<lparr>heap := hh, tables := tt\<rparr>"] by simp
  show ?case
  proof (cases "endswith f ''.tbl'' \<and> d \<noteq> []")
    case False
    then show ?thesis using Cons.IH x a by auto
  next
    case True
    show ?thesis
    proof (cases "unpackb env d")
      case (Inl e)
      then show ?thesis using True x by simp
    next
      case (Inr raw)
      show ?thesis
      proof (cases "rehydrate env raw")
        case (Inl e)
        then show ?thesis using Inr True x by simp
      next
        case table: (Inr table)
        obtain t h' where "alloc table (heap w) = (t, h')" by (cases "alloc table (heap w)")
        then show ?thesis using table Inr True x b by simp
      qed
    qed
  qed
qed


lemma quiet_fields:
  "quiet a = quiet b \<Longrightarrow> tables a = tables b \<and> heap a = heap b"
  by (cases a; cases b) (simp add: quiet_def)

text \<open>
  The table that the bytes of a file stand for:
  \<^verbatim>\<open>rehydrate(msgpack.unpackb(data, raw=False))\<close>.
\<close>

definition table_of_bytes :: "'a env_scheme \<Rightarrow> bytes \<Rightarrow> error + pyval" where
  "table_of_bytes env data =
     (case unpackb env data of Inl e \<Rightarrow> Inl e | Inr raw_state \<Rightarrow> rehydrate env raw_state)"

text \<open>
  What loading a directory comes to, stated apart from the loop: the files that hold a
  table are the files whose name ends in \<^verbatim>\<open>.tbl\<close> and whose content is not empty, and
  \<open>register_all\<close> reads them in order, each table allocated and stored under the name of
  its file without the extension.
\<close>

definition has_table :: "string \<times> bytes \<Rightarrow> bool" where
  "has_table e \<longleftrightarrow> endswith (fst e) ''.tbl'' \<and> snd e \<noteq> []"

fun register_all ::
  "'a env_scheme \<Rightarrow> (string \<times> bytes) list \<Rightarrow> (string \<times> addr) list \<times> obj list
    \<Rightarrow> (string \<times> addr) list \<times> obj list" where
  "register_all env [] s = s"
| "register_all env ((filename, data) # rest) (ts, h) =
     (case table_of_bytes env data of
        Inl e \<Rightarrow> (ts, h)
      | Inr table \<Rightarrow>
          (case alloc table h of
             (t, h') \<Rightarrow>
               register_all env rest
                 (AList.update (take (length filename - 4) filename) t ts, h')))"

lemma load_tables_register_all:
  "\<forall>e \<in> set es. has_table e \<longrightarrow> (\<exists>table. table_of_bytes env (snd e) = Inr table) \<Longrightarrow>
   fst (load_tables env es w) = Inr ()
   \<and> (tables (snd (load_tables env es w)), heap (snd (load_tables env es w)))
       = register_all env (filter has_table es) (tables w, heap w)"
proof (induction es arbitrary: w)
  case Nil
  show ?case by simp
next
  case (Cons x es)
  obtain f d where x: "x = (f, d)" by (cases x)
  from Cons.prems have rest:
    "\<forall>e \<in> set es. has_table e \<longrightarrow> (\<exists>table. table_of_bytes env (snd e) = Inr table)"
    by simp
  note IH = Cons.IH [OF rest]
  show ?case
  proof (cases "has_table (f, d)")
    case False
    then have "load_tables env (x # es) w = load_tables env es w
        \<or> (\<exists>l. load_tables env (x # es) w = load_tables env es (print l w))"
      by (auto simp: x has_table_def)
    moreover have "tables (print l w) = tables w \<and> heap (print l w) = heap w" for l
      by (simp add: print_def)
    ultimately show ?thesis using False IH [of w] IH [of "print l w" for l]
      by (auto simp: x)
  next
    case True
    with Cons.prems obtain table where t: "table_of_bytes env d = Inr table"
      by (auto simp: x)
    then obtain raw where r: "unpackb env d = Inr raw" "rehydrate env raw = Inr table"
      by (auto simp: table_of_bytes_def split: sum.splits)
    obtain a h' where al: "alloc table (heap w) = (a, h')" by (cases "alloc table (heap w)")
    let ?w = "w\<lparr>heap := h', tables := AList.update (take (length f - 4) f) a (tables w)\<rparr>"
    have "load_tables env (x # es) w = load_tables env es ?w"
      using True r al by (simp add: x has_table_def)
    moreover have "register_all env (filter has_table (x # es)) (tables w, heap w)
        = register_all env (filter has_table es) (tables ?w, heap ?w)"
      using True t al by (simp add: x)
    ultimately show ?thesis using IH [of ?w] by simp
  qed
qed

lemma register_all_names:
  "\<forall>e \<in> set es. \<exists>table. table_of_bytes env (snd e) = Inr table \<Longrightarrow>
   fst ` set (fst (register_all env es (ts, h)))
     = fst ` set ts \<union> (\<lambda>e. take (length (fst e) - 4) (fst e)) ` set es"
proof (induction es arbitrary: ts h)
  case Nil
  show ?case by simp
next
  case (Cons x es)
  obtain f d where x: "x = (f, d)" by (cases x)
  from Cons.prems obtain table where t: "table_of_bytes env d = Inr table" by (auto simp: x)
  obtain a h' where al: "alloc table h = (a, h')" by (cases "alloc table h")
  from Cons.prems have "\<forall>e \<in> set es. \<exists>table. table_of_bytes env (snd e) = Inr table" by simp
  from Cons.IH [OF this, of "AList.update (take (length f - 4) f) a ts" h'] t al
  show ?case by (auto simp: x dom_update)
qed

text \<open>
  Claim C8. When the directory that \<^verbatim>\<open>Database.open\<close> reads lists a file \<open>filename\<close>
  ending in \<^verbatim>\<open>.tbl\<close> whose content is empty, \<^verbatim>\<open>open\<close> returns what it returns on the
  same directory without that file, with the same tables loaded and the same heap: the
  empty file is no failure of its own. When \<^verbatim>\<open>open\<close> returns normally the warning for
  \<open>filename\<close> is among the printed lines. When every other table file with content holds
  a table, \<^verbatim>\<open>open\<close> returns normally and has loaded the remaining tables: the tables
  registered and the heap are those of reading the files with content in order, before and
  after the empty file alike, and the names registered are the names of those files.
\<close>

theorem open_skips_empty_file:
  assumes listing: "fs w path = Some (before @ (filename, []) # after)"
    and tbl: "endswith filename ''.tbl''"
    and path: "path \<noteq> []"
  shows "fst (Database_open env path w)
          = fst (Database_open env path (w\<lparr>fs := (fs w)(path \<mapsto> before @ after)\<rparr>))
    \<and> tables (snd (Database_open env path w))
          = tables (snd (Database_open env path (w\<lparr>fs := (fs w)(path \<mapsto> before @ after)\<rparr>)))
    \<and> heap (snd (Database_open env path w))
          = heap (snd (Database_open env path (w\<lparr>fs := (fs w)(path \<mapsto> before @ after)\<rparr>)))
    \<and> (fst (Database_open env path w) = Inr ()
          \<longrightarrow> ''Warning: '' @ filename @ '' is empty. Skipping.''
                \<in> set (stdout (snd (Database_open env path w))))
    \<and> ((\<forall>e \<in> set (before @ after).
            has_table e \<longrightarrow> (\<exists>table. table_of_bytes env (snd e) = Inr table))
          \<longrightarrow> fst (Database_open env path w) = Inr ()
              \<and> (tables (snd (Database_open env path w)), heap (snd (Database_open env path w)))
                  = register_all env (filter has_table (before @ after)) ([], heap w)
              \<and> fst ` set (tables (snd (Database_open env path w)))
                  = (\<lambda>e. take (length (fst e) - 4) (fst e))
                      ` set (filter has_table (before @ after)))"
proof -
  define W where "W = w\<lparr>db_path := Some path, tables := []\<rparr>"
  define F where "F = (fs w)(path \<mapsto> before @ after)"
  define warning where "warning = ''Warning: '' @ filename @ '' is empty. Skipping.''"
  define finish :: "(error + unit) \<times> world \<Rightarrow> (error + unit) \<times> world" where
    "finish r = (case r of (Inl e, w') \<Rightarrow> (Inl e, w')
                 | (Inr u, w') \<Rightarrow> (Inr (), print ''Database loaded from disk.'' w'))" for r
  have finish_fst: "fst (finish r) = fst r" for r
    by (cases r; cases "fst r") (auto simp: finish_def)
  have finish_quiet: "quiet (snd (finish r)) = quiet (snd r)" for r
    by (cases r; cases "fst r") (auto simp: finish_def print_def)
  have finish_stdout: "set (stdout (snd r)) \<subseteq> set (stdout (snd (finish r)))" for r
    by (cases r; cases "fst r") (auto simp: finish_def print_def)
  have open1: "Database_open env path w
      = finish (load_tables env (before @ (filename, []) # after) W)"
    using listing path by (simp add: Database_open_def Let_def W_def finish_def)
  have W': "w\<lparr>fs := F, db_path := Some path, tables := []\<rparr> = W\<lparr>fs := F\<rparr>"
    unfolding W_def by (cases w) simp
  have open2: "Database_open env path (w\<lparr>fs := F\<rparr>) = finish (load_tables env (before @ after) (W\<lparr>fs := F\<rparr>))"
    using path W' by (simp add: Database_open_def Let_def finish_def F_def)
  obtain rb wb where rb: "load_tables env before W = (rb, wb)"
    by (cases "load_tables env before W")
  have with_file: "load_tables env (before @ (filename, []) # after) W
      = (case rb of Inl e \<Rightarrow> (Inl e, wb) | Inr u \<Rightarrow> load_tables env after (print warning wb))"
    using tbl by (simp add: load_tables_append rb warning_def split: sum.split)
  have without_file: "load_tables env (before @ after) W
      = (case rb of Inl e \<Rightarrow> (Inl e, wb) | Inr u \<Rightarrow> load_tables env after wb)"
    by (simp add: load_tables_append rb split: sum.split)
  have same: "silently (load_tables env (before @ (filename, []) # after) W)
      = silently (load_tables env (before @ after) W)"
  proof (cases rb)
    case (Inl e)
    then show ?thesis by (simp add: with_file without_file)
  next
    case (Inr u)
    have "print warning wb = wb\<lparr>stdout := stdout wb @ [warning]\<rparr>" by (simp add: print_def)
    then show ?thesis using Inr by (simp add: with_file without_file load_tables_stdout)
  qed
  let ?r1 = "load_tables env (before @ (filename, []) # after) W"
  let ?r2 = "load_tables env (before @ after) W"
  from same have r: "fst ?r1 = fst ?r2" and q: "quiet (snd ?r1) = quiet (snd ?r2)"
    by (simp_all add: silently_def)
  have o2: "Database_open env path (w\<lparr>fs := F\<rparr>) = finish (fst ?r2, (snd ?r2)\<lparr>fs := F\<rparr>)"
    by (simp add: open2 load_tables_fs)
  have c1: "fst (Database_open env path w) = fst (Database_open env path (w\<lparr>fs := F\<rparr>))"
    by (simp add: open1 o2 finish_fst r)
  have "quiet (snd (Database_open env path w)) = quiet (snd ?r2)"
    by (simp add: open1 finish_quiet q)
  then have f1: "tables (snd (Database_open env path w)) = tables (snd ?r2)"
    and f2: "heap (snd (Database_open env path w)) = heap (snd ?r2)"
    by (auto dest: quiet_fields)
  have "quiet (snd (Database_open env path (w\<lparr>fs := F\<rparr>))) = quiet ((snd ?r2)\<lparr>fs := F\<rparr>)"
    by (simp add: o2 finish_quiet)
  then have g1: "tables (snd (Database_open env path (w\<lparr>fs := F\<rparr>))) = tables (snd ?r2)"
    and g2: "heap (snd (Database_open env path (w\<lparr>fs := F\<rparr>))) = heap (snd ?r2)"
    by (auto dest: quiet_fields)
  have c4: "warning \<in> set (stdout (snd (Database_open env path w)))"
    if ok: "fst (Database_open env path w) = Inr ()"
  proof -
    from ok have "fst ?r1 = Inr ()" by (simp add: open1 finish_fst)
    then obtain u where u: "rb = Inr u" by (cases rb) (simp_all add: with_file)
    then have "?r1 = load_tables env after (print warning wb)" by (simp add: with_file)
    moreover have "warning \<in> set (stdout (print warning wb))" by (simp add: print_def)
    ultimately have "warning \<in> set (stdout (snd ?r1))"
      using load_tables_stdout_mono [of "print warning wb" env after] by auto
    then show ?thesis using finish_stdout [of ?r1] by (auto simp: open1)
  qed
  have c5: "fst (Database_open env path w) = Inr ()
      \<and> (tables (snd (Database_open env path w)), heap (snd (Database_open env path w)))
          = register_all env (filter has_table (before @ after)) ([], heap w)
      \<and> fst ` set (tables (snd (Database_open env path w)))
          = (\<lambda>e. take (length (fst e) - 4) (fst e)) ` set (filter has_table (before @ after))"
    if H: "\<forall>e \<in> set (before @ after).
        has_table e \<longrightarrow> (\<exists>table. table_of_bytes env (snd e) = Inr table)"
  proof -
    note l = load_tables_register_all [OF H, of W]
    have W0: "tables W = []" "heap W = heap w" by (simp_all add: W_def)
    from l have a: "fst (Database_open env path w) = Inr ()"
      by (simp add: open1 finish_fst r)
    from l have b: "(tables (snd (Database_open env path w)), heap (snd (Database_open env path w)))
          = register_all env (filter has_table (before @ after)) ([], heap w)"
      by (simp add: f1 f2 W0)
    from H have H': "\<forall>e \<in> set (filter has_table (before @ after)).
        \<exists>table. table_of_bytes env (snd e) = Inr table"
      by auto
    have "tables (snd (Database_open env path w))
        = fst (register_all env (filter has_table (before @ after)) ([], heap w))"
      using b by (metis fst_conv)
    then have c: "fst ` set (tables (snd (Database_open env path w)))
          = (\<lambda>e. take (length (fst e) - 4) (fst e)) ` set (filter has_table (before @ after))"
      using register_all_names [OF H', of "[]" "heap w"] by simp
    from a b c show ?thesis by blast
  qed
  show ?thesis
    using c1 f1 f2 g1 g2 c4 c5 unfolding F_def warning_def by simp
qed

theorem open_skips_empty_file_witness:
  "fs World_empty_file ''db''
     = Some ([] @ (''A.tbl'', []) # [(''B.tbl'', [5]), (''notes.txt'', [7])])
   \<and> endswith ''A.tbl'' ''.tbl''
   \<and> has_table (''B.tbl'', [5]) \<and> \<not> has_table (''notes.txt'', [7])
   \<and> table_of_bytes B_env [5] = Inr (VTable (VDict [(str ''name'', str ''B'')]))
   \<and> fst (Database_open B_env ''db'' World_empty_file) = Inr ()
   \<and> ''Warning: A.tbl is empty. Skipping.''
        \<in> set (stdout (snd (Database_open B_env ''db'' World_empty_file)))
   \<and> tables (snd (Database_open B_env ''db'' World_empty_file)) = [(''B'', 3)]
   \<and> heap (snd (Database_open B_env ''db'' World_empty_file))
       = [OBasic (PStr ''name''), OBasic (PStr ''B''), ODict [(0, 1)], OTable 2]"
proof -
  let ?rest = "[(''B.tbl'', [5::8 word]), (''notes.txt'', [7])]"
  have a: "fs World_empty_file ''db'' = Some ([] @ (''A.tbl'', []) # ?rest)"
    by (simp add: World_empty_file_def)
  have b: "endswith ''A.tbl'' ''.tbl''" by (simp add: endswith_def)
  have c: "''db'' \<noteq> []" by simp
  have v: "table_of_bytes B_env d = Inr (VTable (VDict [(str ''name'', str ''B'')]))" for d
    by (simp add: table_of_bytes_def B_env_def spec_env_def tagged_def rehydrate.simps(1)
        str_def instantiate_def)
  have d: "\<forall>e \<in> set ([] @ ?rest). has_table e \<longrightarrow> (\<exists>table. table_of_bytes B_env (snd e) = Inr table)"
    by (simp add: v)
  have k: "filter has_table ([] @ ?rest) = [(''B.tbl'', [5])]"
    by (simp add: has_table_def endswith_def)
  note t = open_skips_empty_file [OF a b c, of B_env]
  note t5 = t [THEN conjunct2, THEN conjunct2, THEN conjunct2, THEN conjunct2, THEN mp, OF d]
  have f: "fst (Database_open B_env ''db'' World_empty_file) = Inr ()"
    by (rule t5 [THEN conjunct1])
  have g: "''Warning: '' @ ''A.tbl'' @ '' is empty. Skipping.''
        \<in> set (stdout (snd (Database_open B_env ''db'' World_empty_file)))"
    by (rule t [THEN conjunct2, THEN conjunct2, THEN conjunct2, THEN conjunct1, THEN mp, OF f])
  have "(tables (snd (Database_open B_env ''db'' World_empty_file)),
         heap (snd (Database_open B_env ''db'' World_empty_file)))
      = register_all B_env (filter has_table ([] @ ?rest)) ([], heap World_empty_file)"
    by (rule t5 [THEN conjunct2, THEN conjunct1])
  also have "\<dots> = ([(''B'', 3)], [OBasic (PStr ''name''), OBasic (PStr ''B''), ODict [(0, 1)], OTable 2])"
    unfolding k by (simp add: v World_empty_file_def Database0_def new_def str_def)
  finally have h: "tables (snd (Database_open B_env ''db'' World_empty_file)) = [(''B'', 3)]"
    and i: "heap (snd (Database_open B_env ''db'' World_empty_file))
       = [OBasic (PStr ''name''), OBasic (PStr ''B''), ODict [(0, 1)], OTable 2]"
    by simp_all
  have m: "has_table (''B.tbl'', [5])" "\<not> has_table (''notes.txt'', [7])"
    by (simp_all add: has_table_def endswith_def)
  from a b m v [of "[5]"] f g h i show ?thesis by simp
qed


section \<open>Database.close\<close>

text \<open>
  What \<^verbatim>\<open>close\<close> writes for one table: \<^verbatim>\<open>msgpack.packb(convert_to_serializable(table),
  use_bin_type=True)\<close>, or the exception of either step.
\<close>

definition table_blob :: "'a env_scheme \<Rightarrow> obj list \<Rightarrow> addr \<Rightarrow> error + bytes" where
  "table_blob env h table =
     (case convert_to_serializable h {} table of
        Inl e \<Rightarrow> Inl e
      | Inr serializable_state \<Rightarrow> packb env serializable_state)"

text \<open>The bytes of the file \<open>name\<close> of directory \<open>dir\<close>, when there is one.\<close>

definition file_content :: "world \<Rightarrow> string \<Rightarrow> string \<Rightarrow> bytes option" where
  "file_content w dir name = (case fs w dir of None \<Rightarrow> None | Some listing \<Rightarrow> map_of listing name)"

text \<open>The file names \<^verbatim>\<open>close\<close> opens: \<^verbatim>\<open>f"{table_name}.tbl"\<close> for every registered table.\<close>

definition table_files :: "(string \<times> addr) list \<Rightarrow> string set" where
  "table_files ts = (\<lambda>(table_name, table). table_name @ ''.tbl'') ` set ts"

lemma write_file_twice:
  "fs w dir = Some l \<Longrightarrow>
   write_file dir f b (write_file dir f [] w) = w\<lparr>fs := (fs w)(dir \<mapsto> AList.update f b l)\<rparr>"
  by (cases w) (simp add: write_file_def fun_eq_iff)

lemma write_file_once:
  "fs w dir = Some l \<Longrightarrow> write_file dir f b w = w\<lparr>fs := (fs w)(dir \<mapsto> AList.update f b l)\<rparr>"
  by (simp add: write_file_def)

lemma save_tables_step:
  "fs w dir = Some l \<Longrightarrow>
   save_tables env dir ((n, t) # rest) w =
     (case table_blob env (heap w) t of
        Inl e \<Rightarrow> (Inl e, w\<lparr>fs := (fs w)(dir \<mapsto> AList.update (n @ ''.tbl'') [] l)\<rparr>)
      | Inr b \<Rightarrow> save_tables env dir rest (w\<lparr>fs := (fs w)(dir \<mapsto> AList.update (n @ ''.tbl'') b l)\<rparr>))"
  by (simp add: table_blob_def Let_def write_file_twice write_file_once split: sum.split)

lemma save_tables_frame:
  "fs w dir = Some l \<Longrightarrow>
   \<exists>l'. snd (save_tables env dir ts w) = w\<lparr>fs := (fs w)(dir \<mapsto> l')\<rparr>
        \<and> (\<forall>f. f \<notin> table_files ts \<longrightarrow> map_of l' f = map_of l f)"
proof (induction ts arbitrary: w l)
  case Nil
  have "w = w\<lparr>fs := (fs w)(dir \<mapsto> l)\<rparr>" using Nil by (cases w) (simp add: fun_eq_iff)
  then have "snd (save_tables env dir [] w) = w\<lparr>fs := (fs w)(dir \<mapsto> l)\<rparr>
      \<and> (\<forall>f. f \<notin> table_files [] \<longrightarrow> map_of l f = map_of l f)" by simp
  then show ?case by (rule exI)
next
  case (Cons x ts)
  obtain n t where x: "x = (n, t)" by (cases x)
  let ?f = "n @ ''.tbl''"
  show ?case
  proof (cases "table_blob env (heap w) t")
    case (Inl e)
    have "\<forall>f. f \<notin> table_files (x # ts) \<longrightarrow> map_of (AList.update ?f [] l) f = map_of l f"
      by (simp add: x table_files_def update_conv')
    moreover have "snd (save_tables env dir (x # ts) w)
        = w\<lparr>fs := (fs w)(dir \<mapsto> AList.update ?f [] l)\<rparr>"
      unfolding x save_tables_step [OF Cons.prems] using Inl by simp
    ultimately show ?thesis by blast
  next
    case (Inr b)
    let ?w = "w\<lparr>fs := (fs w)(dir \<mapsto> AList.update ?f b l)\<rparr>"
    have "fs ?w dir = Some (AList.update ?f b l)" by simp
    from Cons.IH [OF this] obtain l' where
      l': "snd (save_tables env dir ts ?w) = ?w\<lparr>fs := (fs ?w)(dir \<mapsto> l')\<rparr>"
      and keep: "\<forall>f. f \<notin> table_files ts \<longrightarrow> map_of l' f = map_of (AList.update ?f b l) f"
      by blast
    have "snd (save_tables env dir (x # ts) w) = w\<lparr>fs := (fs w)(dir \<mapsto> l')\<rparr>"
      unfolding x save_tables_step [OF Cons.prems] using Inr l' by simp
    moreover have "\<forall>f. f \<notin> table_files (x # ts) \<longrightarrow> map_of l' f = map_of l f"
      using keep by (simp add: x table_files_def update_conv')
    ultimately show ?thesis by blast
  qed
qed


lemma save_tables_heap: "heap (snd (save_tables env dir ts w)) = heap w"
proof (cases "fs w dir")
  case None
  then show ?thesis by (cases ts) auto
next
  case (Some l)
  from save_tables_frame [OF this, of env ts] show ?thesis by auto
qed

lemma save_tables_ok:
  "fs w dir = Some l \<Longrightarrow> distinct (map fst ts) \<Longrightarrow>
   \<forall>(n, t) \<in> set ts. \<exists>b. table_blob env (heap w) t = Inr b \<Longrightarrow>
   fst (save_tables env dir ts w) = Inr ()
   \<and> (\<forall>n t b. (n, t) \<in> set ts \<longrightarrow> table_blob env (heap w) t = Inr b \<longrightarrow>
         file_content (snd (save_tables env dir ts w)) dir (n @ ''.tbl'') = Some b)"
proof (induction ts arbitrary: w l)
  case Nil
  show ?case by simp
next
  case (Cons x ts)
  obtain n t where x: "x = (n, t)" by (cases x)
  let ?f = "n @ ''.tbl''"
  from Cons.prems(3) obtain b0 where b0: "table_blob env (heap w) t = Inr b0"
    by (auto simp: x)
  let ?w = "w\<lparr>fs := (fs w)(dir \<mapsto> AList.update ?f b0 l)\<rparr>"
  have step: "save_tables env dir (x # ts) w = save_tables env dir ts ?w"
    unfolding x save_tables_step [OF Cons.prems(1)] using b0 by simp
  have dir: "fs ?w dir = Some (AList.update ?f b0 l)" by simp
  have rest: "\<forall>(n, t) \<in> set ts. \<exists>b. table_blob env (heap ?w) t = Inr b"
    using Cons.prems(3) by simp
  have dist: "distinct (map fst ts)" and fresh: "n \<notin> fst ` set ts"
    using Cons.prems(2) by (simp_all add: x)
  from Cons.IH [OF dir dist rest]
  have ok: "fst (save_tables env dir ts ?w) = Inr ()"
    and files: "\<And>n' t' b. (n', t') \<in> set ts \<Longrightarrow> table_blob env (heap w) t' = Inr b \<Longrightarrow>
        file_content (snd (save_tables env dir ts ?w)) dir (n' @ ''.tbl'') = Some b"
    by auto
  from save_tables_frame [OF dir, of env ts] obtain l' where
    l': "snd (save_tables env dir ts ?w) = ?w\<lparr>fs := (fs ?w)(dir \<mapsto> l')\<rparr>"
    and keep: "\<forall>f. f \<notin> table_files ts \<longrightarrow> map_of l' f = map_of (AList.update ?f b0 l) f"
    by blast
  have "?f \<notin> table_files ts" using fresh by (force simp: table_files_def)
  with keep have "map_of l' ?f = Some b0" by (simp add: update_conv')
  then have head: "file_content (snd (save_tables env dir ts ?w)) dir ?f = Some b0"
    by (simp add: l' file_content_def)
  show ?case
    unfolding step using ok head files b0 by (auto simp: x)
qed


lemma save_tables_append:
  "save_tables env dir (xs @ ys) w =
     (case save_tables env dir xs w of
        (Inl e, w') \<Rightarrow> (Inl e, w')
      | (Inr u, w') \<Rightarrow> save_tables env dir ys w')"
  by (induction xs arbitrary: w) (auto simp: Let_def split: option.splits sum.splits)

lemma save_tables_bufferpool: "bufferpool (snd (save_tables env dir ts w)) = bufferpool w"
proof (cases "fs w dir")
  case None
  then show ?thesis by (cases ts) auto
next
  case (Some l)
  from save_tables_frame [OF this, of env ts] show ?thesis by auto
qed

text \<open>A pool holding one dirty page, and the saved database with that pool.\<close>

definition dirty_pool :: bufferpool where
  "dirty_pool =
     \<lparr>capacity = 10,
      frames = [\<lparr>page_id = 0, page_bytes = [7], pin_count = 0, dirty = True, recency = 0\<rparr>],
      page_store = []\<rparr>"

definition World_dirty :: world where
  "World_dirty = World_saved\<lparr>bufferpool := dirty_pool\<rparr>"

text \<open>
  The same database beside a directory whose \<^verbatim>\<open>T.tbl\<close> holds other bytes than the table's
  blob, and a file that is no table file.
\<close>

definition World_stale :: world where
  "World_stale =
     World_dirty\<lparr>fs := (\<lambda>p. None)(''db'' \<mapsto> [(''T.tbl'', [2]), (''x.txt'', [9])])\<rparr>"

text \<open>
  A database whose directory holds an earlier \<^verbatim>\<open>T.tbl\<close> and whose table \<open>T\<close> has the
  attribute \<^verbatim>\<open>page_directory = {(0, 1): 5}\<close>: the tuple key converts to a list, which the
  dict comprehension of \<^verbatim>\<open>convert_to_serializable\<close> cannot hash.
\<close>

definition World_unhashable :: world where
  "World_unhashable =
     \<lparr>tables = [(''T'', 0)], db_path = Some ''db'', bufferpool = Bufferpool 10,
      heap = [OTable 1, ODict [(2, 3)], OBasic (PStr ''page_directory''), ODict [(4, 5)],
              OTuple [6, 7], OBasic (PInt 5), OBasic (PInt 0), OBasic (PInt 1)],
      fs = (\<lambda>p. None)(''db'' \<mapsto> [(''T.tbl'', [1])]), stdout = []\<rparr>"


text \<open>
  Claim C3, as stated: \<^verbatim>\<open>close\<close> fails with \<^verbatim>\<open>NoPathSet\<close> before any path was established;
  otherwise it flushes the Bufferpool and writes every registered table's blob to that table's
  file. The method never refers to \<^verbatim>\<open>self.bufferpool\<close>: closing a database whose pool holds
  a dirty page returns normally, writes \<^verbatim>\<open>T.tbl\<close>, and leaves the pool as it was, the page
  still dirty and not in the page store.
\<close>

theorem close_no_flush_counterexample:
  "fst (Database_close (spec_env (VBasic PNone)) World_dirty) = Inr ()
   \<and> file_content (snd (Database_close (spec_env (VBasic PNone)) World_dirty)) ''db'' ''T.tbl'' = Some [1]
   \<and> bufferpool (snd (Database_close (spec_env (VBasic PNone)) World_dirty)) = dirty_pool
   \<and> dirty_pool \<noteq> flush_all dirty_pool"
  by (simp add: Database_close_def World_dirty_def World_saved_def World_T_def
      Database_create_table_def spec_env_def Table_spec_def Database0_def new_def str_def
      convert_to_serializable.simps tagged_def write_file_def file_content_def Let_def
      dirty_pool_def flush_all_def)


text \<open>
  Claim C3, amended. \<^verbatim>\<open>close\<close> raises \<^verbatim>\<open>ValueError("Database path is not set.")\<close> and
  changes nothing when no path was established (\<^verbatim>\<open>db_path\<close> is \<^verbatim>\<open>None\<close> or empty). With
  a path whose directory exists, table names that are distinct and every table serializable,
  it returns normally and every registered table's file \<^verbatim>\<open><name>.tbl\<close> holds that table's
  blob, none left unwritten. It does not flush the Bufferpool: the pool is the same after
  \<^verbatim>\<open>close\<close> as before.
\<close>

theorem close_writes_every_table:
  "(db_path w = None \<or> db_path w = Some [] \<longrightarrow>
      Database_close env w = (Inl (ValueError ''Database path is not set.''), w))
   \<and> (\<forall>path listing. db_path w = Some path \<longrightarrow> path \<noteq> [] \<longrightarrow> fs w path = Some listing \<longrightarrow>
         distinct (map fst (tables w)) \<longrightarrow>
         (\<forall>(n, t) \<in> set (tables w). \<exists>b. table_blob env (heap w) t = Inr b) \<longrightarrow>
           fst (Database_close env w) = Inr ()
           \<and> (\<forall>n t b. (n, t) \<in> set (tables w) \<longrightarrow> table_blob env (heap w) t = Inr b \<longrightarrow>
                 file_content (snd (Database_close env w)) path (n @ ''.tbl'') = Some b))
   \<and> bufferpool (snd (Database_close env w)) = bufferpool w"
proof (intro conjI allI impI)
  show "Database_close env w = (Inl (ValueError ''Database path is not set.''), w)"
    if "db_path w = None \<or> db_path w = Some []"
    using that by (auto simp: Database_close_def)
  show "bufferpool (snd (Database_close env w)) = bufferpool w"
    by (simp add: Database_close_def save_tables_bufferpool split: option.split)
next
  fix path listing
  assume p: "db_path w = Some path" "path \<noteq> []"
    and l: "fs w path = Some listing"
    and d: "distinct (map fst (tables w))"
    and b: "\<forall>(n, t) \<in> set (tables w). \<exists>b. table_blob env (heap w) t = Inr b"
  have c: "Database_close env w = save_tables env path (tables w) w"
    using p by (simp add: Database_close_def)
  note ok = save_tables_ok [OF l d b]
  show "fst (Database_close env w) = Inr ()" using ok by (simp add: c)
  show "file_content (snd (Database_close env w)) path (n @ ''.tbl'') = Some b'"
    if "(n, t) \<in> set (tables w)" and "table_blob env (heap w) t = Inr b'" for n t b'
    using ok that by (simp add: c)
qed

theorem close_writes_every_table_witness:
  "db_path Database0 = None
   \<and> Database_close (spec_env (VBasic PNone)) Database0
       = (Inl (ValueError ''Database path is not set.''), Database0)
   \<and> db_path World_stale = Some ''db'' \<and> fs World_stale ''db'' = Some [(''T.tbl'', [2]), (''x.txt'', [9])]
   \<and> tables World_stale = [(''T'', 12)]
   \<and> file_content World_stale ''db'' ''T.tbl'' = Some [2]
   \<and> table_blob (spec_env (VBasic PNone)) (heap World_stale) 12 = Inr [1]
   \<and> fst (Database_close (spec_env (VBasic PNone)) World_stale) = Inr ()
   \<and> file_content (snd (Database_close (spec_env (VBasic PNone)) World_stale)) ''db'' (''T'' @ ''.tbl'')
       = Some [1]
   \<and> bufferpool (snd (Database_close (spec_env (VBasic PNone)) World_stale)) = bufferpool World_stale"
proof -
  let ?env = "spec_env (VBasic PNone)"
  have a: "db_path Database0 = None" by (simp add: Database0_def)
  have w: "db_path World_stale = Some ''db''" "fs World_stale ''db'' = Some [(''T.tbl'', [2]), (''x.txt'', [9])]"
    "tables World_stale = [(''T'', 12)]"
    by (simp_all add: World_stale_def World_dirty_def World_saved_def World_T_def Database_create_table_def
        spec_env_def Table_spec_def Database0_def new_def str_def)
  have b: "table_blob ?env (heap World_stale) 12 = Inr [1]"
    by (simp add: table_blob_def World_stale_def World_dirty_def World_saved_def World_T_def
        Database_create_table_def spec_env_def Table_spec_def Database0_def new_def str_def
        convert_to_serializable.simps tagged_def)
  have d: "distinct (map fst (tables World_stale))" by (simp add: w)
  have e: "\<forall>(n, t) \<in> set (tables World_stale). \<exists>b. table_blob ?env (heap World_stale) t = Inr b"
    by (simp add: w b)
  have f: "(''T'', 12) \<in> set (tables World_stale)" by (simp add: w)
  have n: "''db'' \<noteq> []" by simp
  have o: "file_content World_stale ''db'' ''T.tbl'' = Some [2]"
    by (simp add: file_content_def w)
  note t0 = close_writes_every_table [of Database0 ?env]
  note t1 = close_writes_every_table [of World_stale ?env]
  have g: "Database_close ?env Database0
      = (Inl (ValueError ''Database path is not set.''), Database0)"
    by (rule t0 [THEN conjunct1, THEN mp, OF disjI1, OF a])
  note t2 = t1 [THEN conjunct2, THEN conjunct1, THEN spec, THEN spec, THEN mp, THEN mp, THEN mp,
      THEN mp, THEN mp, OF w(1) n w(2) d e]
  have h: "fst (Database_close ?env World_stale) = Inr ()"
    by (rule t2 [THEN conjunct1])
  have i: "file_content (snd (Database_close ?env World_stale)) ''db'' (''T'' @ ''.tbl'') = Some [1]"
    by (rule t2 [THEN conjunct2, THEN spec, THEN spec, THEN spec, THEN mp, THEN mp, OF f b])
  have j: "bufferpool (snd (Database_close ?env World_stale)) = bufferpool World_stale"
    by (rule t1 [THEN conjunct2, THEN conjunct2])
  show ?thesis
    by (intro conjI) (rule a g w o b h i j)+
qed

text \<open>
  Claim C7, as stated: every table's blob is written to a temporary location and renamed into
  place, so that an interruption never leaves a half-written file at the final path. The
  method opens the final path itself with mode \<^verbatim>\<open>"wb"\<close>, which truncates it, before the table
  is serialized: when the serialization raises, the earlier \<^verbatim>\<open>T.tbl\<close> has been replaced by
  an empty file.
\<close>

theorem close_writes_in_place_counterexample:
  "file_content World_unhashable ''db'' ''T.tbl'' = Some [1]
   \<and> fst (Database_close (spec_env (VBasic PNone)) World_unhashable)
       = Inl (TypeError ''unhashable type'')
   \<and> file_content (snd (Database_close (spec_env (VBasic PNone)) World_unhashable)) ''db'' ''T.tbl''
       = Some []"
  by (simp add: Database_close_def World_unhashable_def spec_env_def str_def
      convert_to_serializable.simps tagged_def write_file_def file_content_def Let_def)

text \<open>
  Claim C7, amended. \<^verbatim>\<open>close\<close> writes every table in place: with a path whose directory
  exists, it touches no other directory and no file of that directory other than the
  \<^verbatim>\<open><name>.tbl\<close> of the registered tables (no temporary file appears, nothing is renamed);
  and when the tables before some table were written and that table's serialization raises,
  \<^verbatim>\<open>close\<close> raises the same exception and leaves that table's file at the final path
  empty.
\<close>

theorem close_writes_in_place:
  assumes "db_path w = Some path" and "path \<noteq> []" and "fs w path = Some listing"
  shows "(\<forall>dir. dir \<noteq> path \<longrightarrow> fs (snd (Database_close env w)) dir = fs w dir)
   \<and> (\<forall>f. f \<notin> table_files (tables w) \<longrightarrow>
         file_content (snd (Database_close env w)) path f = file_content w path f)
   \<and> (\<forall>saved n t rest e.
         tables w = saved @ (n, t) # rest \<longrightarrow> distinct (map fst (tables w)) \<longrightarrow>
         (\<forall>(n', t') \<in> set saved. \<exists>b. table_blob env (heap w) t' = Inr b) \<longrightarrow>
         table_blob env (heap w) t = Inl e \<longrightarrow>
           fst (Database_close env w) = Inl e
           \<and> file_content (snd (Database_close env w)) path (n @ ''.tbl'') = Some [])"
proof -
  have c: "Database_close env w = save_tables env path (tables w) w"
    using assms by (simp add: Database_close_def)
  from save_tables_frame [OF assms(3), of env "tables w"] obtain l' where
    l': "snd (save_tables env path (tables w) w) = w\<lparr>fs := (fs w)(path \<mapsto> l')\<rparr>"
    and keep: "\<forall>f. f \<notin> table_files (tables w) \<longrightarrow> map_of l' f = map_of listing f"
    by blast
  have one: "\<forall>dir. dir \<noteq> path \<longrightarrow> fs (snd (Database_close env w)) dir = fs w dir"
    by (simp add: c l')
  have two: "\<forall>f. f \<notin> table_files (tables w) \<longrightarrow>
      file_content (snd (Database_close env w)) path f = file_content w path f"
    using keep assms(3) by (simp add: c l' file_content_def)
  have three: "fst (Database_close env w) = Inl e
      \<and> file_content (snd (Database_close env w)) path (n @ ''.tbl'') = Some []"
    if t: "tables w = saved @ (n, t) # rest" and d: "distinct (map fst (tables w))"
      and s: "\<forall>(n', t') \<in> set saved. \<exists>b. table_blob env (heap w) t' = Inr b"
      and e: "table_blob env (heap w) t = Inl e" for saved n t rest e
  proof -
    have ds: "distinct (map fst saved)" using d t by simp
    from save_tables_ok [OF assms(3) ds s]
    have ok: "fst (save_tables env path saved w) = Inr ()" by simp
    from save_tables_frame [OF assms(3), of env saved] obtain l1 where
      l1: "snd (save_tables env path saved w) = w\<lparr>fs := (fs w)(path \<mapsto> l1)\<rparr>" by blast
    let ?w1 = "w\<lparr>fs := (fs w)(path \<mapsto> l1)\<rparr>"
    have sv: "save_tables env path saved w = (Inr (), ?w1)"
      using ok l1 by (cases "save_tables env path saved w") simp
    have dir1: "fs ?w1 path = Some l1" by simp
    have "save_tables env path (tables w) w = save_tables env path ((n, t) # rest) ?w1"
      by (simp add: t save_tables_append sv)
    also have "\<dots> = (Inl e, ?w1\<lparr>fs := (fs ?w1)(path \<mapsto> AList.update (n @ ''.tbl'') [] l1)\<rparr>)"
      unfolding save_tables_step [OF dir1] using e by simp
    finally show ?thesis
      by (simp add: c file_content_def update_conv')
  qed
  from one two three show ?thesis by blast
qed

theorem close_writes_in_place_witness:
  "db_path World_unhashable = Some ''db'' \<and> fs World_unhashable ''db'' = Some [(''T.tbl'', [1])]
   \<and> tables World_unhashable = [] @ (''T'', 0) # []
   \<and> table_blob (spec_env (VBasic PNone)) (heap World_unhashable) 0
       = Inl (TypeError ''unhashable type'')
   \<and> fst (Database_close (spec_env (VBasic PNone)) World_unhashable)
       = Inl (TypeError ''unhashable type'')
   \<and> file_content (snd (Database_close (spec_env (VBasic PNone)) World_unhashable)) ''db''
        (''T'' @ ''.tbl'') = Some []
   \<and> fs (snd (Database_close (spec_env (VBasic PNone)) World_unhashable)) ''tmp''
       = fs World_unhashable ''tmp''
   \<and> file_content (snd (Database_close (spec_env (VBasic PNone)) World_unhashable)) ''db'' ''T.tmp''
       = file_content World_unhashable ''db'' ''T.tmp''"
proof -
  let ?env = "spec_env (VBasic PNone)"
  have w: "db_path World_unhashable = Some ''db''"
    "fs World_unhashable ''db'' = Some [(''T.tbl'', [1])]"
    "tables World_unhashable = [] @ (''T'', 0) # []"
    by (simp_all add: World_unhashable_def)
  have n: "''db'' \<noteq> []" by simp
  have b: "table_blob ?env (heap World_unhashable) 0 = Inl (TypeError ''unhashable type'')"
    by (simp add: table_blob_def World_unhashable_def convert_to_serializable.simps
        tagged_def str_def)
  have d: "distinct (map fst (tables World_unhashable))" by (simp add: w)
  have s: "\<forall>(n', t') \<in> set []. \<exists>b. table_blob ?env (heap World_unhashable) t' = Inr b" by simp
  have o: "''tmp'' \<noteq> ''db''" by simp
  have f: "''T.tmp'' \<notin> table_files (tables World_unhashable)"
    by (simp add: w table_files_def)
  note t = close_writes_in_place [OF w(1) n w(2), of ?env]
  note t3 = t [THEN conjunct2, THEN conjunct2, THEN spec, THEN spec, THEN spec, THEN spec,
      THEN spec, THEN mp, THEN mp, THEN mp, THEN mp, OF w(3) d s b]
  have g: "fst (Database_close ?env World_unhashable) = Inl (TypeError ''unhashable type'')"
    by (rule t3 [THEN conjunct1])
  have h: "file_content (snd (Database_close ?env World_unhashable)) ''db'' (''T'' @ ''.tbl'') = Some []"
    by (rule t3 [THEN conjunct2])
  have i: "fs (snd (Database_close ?env World_unhashable)) ''tmp'' = fs World_unhashable ''tmp''"
    by (rule t [THEN conjunct1, THEN spec, THEN mp, OF o])
  have j: "file_content (snd (Database_close ?env World_unhashable)) ''db'' ''T.tmp''
       = file_content World_unhashable ''db'' ''T.tmp''"
    by (rule t [THEN conjunct2, THEN conjunct1, THEN spec, THEN mp, OF f])
  show ?thesis
    by (intro conjI) (rule w b g h i j)+
qed


section \<open>The type tag\<close>

text \<open>
  When a comprehension returns, every element has returned, and the keys of a rehydrated
  dict are the keys it had.
\<close>

lemma sequence_Cons_Inr:
  "sequence (r # rs) = Inr ys \<longleftrightarrow> (\<exists>x xs. r = Inr x \<and> sequence rs = Inr xs \<and> ys = x # xs)"
  by (auto split: sum.splits)

lemma map_sum_Inr: "map_sum f g r = Inr y \<longleftrightarrow> (\<exists>x. r = Inr x \<and> y = g x)"
  by (cases r) auto

lemma sequence_Inr_keys:
  "sequence (map (\<lambda>(k, v). map_sum id (Pair k) (g v)) kvs) = Inr kvs'
    \<Longrightarrow> map fst kvs' = map fst kvs"
proof (induction kvs arbitrary: kvs')
  case Nil
  then show ?case by simp
next
  case (Cons x kvs)
  obtain k v where x: "x = (k, v)" by (cases x)
  from Cons.prems obtain v' rest where
    r: "g v = Inr v'" "sequence (map (\<lambda>(k, v). map_sum id (Pair k) (g v)) kvs) = Inr rest"
    "kvs' = (k, v') # rest"
    unfolding x list.map sequence_Cons_Inr prod.case map_sum_Inr by blast
  from Cons.IH [OF r(2)] r(3) show ?case by (simp add: x)
qed

lemma sequence_Inr_lookup:
  "sequence (map (\<lambda>(k, v). map_sum id (Pair k) (g v)) kvs) = Inr kvs'
    \<Longrightarrow> map_of kvs k = Some v \<Longrightarrow> map_sum id Some (g v) = Inr (map_of kvs' k)"
proof (induction kvs arbitrary: kvs')
  case Nil
  then show ?case by simp
next
  case (Cons x kvs)
  obtain k0 v0 where x: "x = (k0, v0)" by (cases x)
  from Cons.prems(1) obtain v' rest where
    r: "g v0 = Inr v'" "sequence (map (\<lambda>(k, v). map_sum id (Pair k) (g v)) kvs) = Inr rest"
    "kvs' = (k0, v') # rest"
    unfolding x list.map sequence_Cons_Inr prod.case map_sum_Inr by blast
  show ?case
  proof (cases "k0 = k")
    case True
    with Cons.prems(2) r show ?thesis by (simp add: x)
  next
    case False
    with Cons.prems(2) have "map_of kvs k = Some v" by (simp add: x)
    from Cons.IH [OF r(2) this] False r(3) show ?thesis by simp
  qed
qed

lemma instantiate_Inr:
  "instantiate cls fresh state = Inr r \<Longrightarrow> \<exists>d. r = cls (VDict d)"
  by (cases fresh; cases state)
     (auto simp: instantiate_def map_sum_def split: sum.splits)

text \<open>
  Claim C6. For a serialized value tagged with \<^verbatim>\<open>__custom_type__\<close>, \<^verbatim>\<open>rehydrate\<close> builds
  an instance only when the tag is \<^verbatim>\<open>"Table"\<close> or \<^verbatim>\<open>"Index"\<close>: what it returns is then a
  \<^verbatim>\<open>Table\<close>, respectively an \<^verbatim>\<open>Index\<close>. For every other tag it takes the branch of a
  plain dict: the result is the same mapping with its values rehydrated, a dict with the
  same keys in the same order and the same tag, and no instance of the tagged kind.
\<close>

theorem rehydrate_instantiates_only_Table_Index:
  assumes "map_of kvs (str ''__custom_type__'') = Some (str c)"
  shows "(c = ''Table'' \<longrightarrow> (\<forall>r. rehydrate env (VDict kvs) = Inr r \<longrightarrow> (\<exists>d. r = VTable (VDict d))))
    \<and> (c = ''Index'' \<longrightarrow> (\<forall>r. rehydrate env (VDict kvs) = Inr r \<longrightarrow> (\<exists>d. r = VIndex (VDict d))))
    \<and> (c \<noteq> ''Table'' \<and> c \<noteq> ''Index'' \<longrightarrow>
          rehydrate env (VDict kvs)
            = map_sum id VDict (sequence (map (\<lambda>(k, v). map_sum id (Pair k) (rehydrate env v)) kvs))
          \<and> (\<forall>r. rehydrate env (VDict kvs) = Inr r \<longrightarrow>
                (\<exists>kvs'. r = VDict kvs' \<and> map fst kvs' = map fst kvs
                   \<and> map_of kvs' (str ''__custom_type__'') = Some (str c))))"
proof (intro conjI impI allI)
  fix r
  assume "c = ''Table''" and "rehydrate env (VDict kvs) = Inr r"
  with assms show "\<exists>d. r = VTable (VDict d)"
    by (auto simp: rehydrate.simps(1) dest: instantiate_Inr)
next
  fix r
  assume "c = ''Index''" and "rehydrate env (VDict kvs) = Inr r"
  with assms show "\<exists>d. r = VIndex (VDict d)"
    by (auto simp: rehydrate.simps(1) str_def dest: instantiate_Inr)
next
  assume c: "c \<noteq> ''Table'' \<and> c \<noteq> ''Index''"
  with assms show e: "rehydrate env (VDict kvs)
      = map_sum id VDict (sequence (map (\<lambda>(k, v). map_sum id (Pair k) (rehydrate env v)) kvs))"
    by (simp add: rehydrate.simps(1) str_def)
  fix r
  assume "rehydrate env (VDict kvs) = Inr r"
  with e obtain kvs' where
    s: "sequence (map (\<lambda>(k, v). map_sum id (Pair k) (rehydrate env v)) kvs) = Inr kvs'"
    and r: "r = VDict kvs'"
    by (cases "sequence (map (\<lambda>(k, v). map_sum id (Pair k) (rehydrate env v)) kvs)") auto
  from sequence_Inr_lookup [OF s assms]
  have "map_of kvs' (str ''__custom_type__'') = Some (str c)" by (simp add: str_def)
  with sequence_Inr_keys [OF s] r
  show "\<exists>kvs'. r = VDict kvs' \<and> map fst kvs' = map fst kvs
      \<and> map_of kvs' (str ''__custom_type__'') = Some (str c)"
    by simp
qed

text \<open>
  A \<^verbatim>\<open>Bufferpool\<close> object of one attribute, which the generic \<^verbatim>\<open>__dict__\<close> branch of
  \<^verbatim>\<open>convert_to_serializable\<close> flattens to a mapping tagged \<^verbatim>\<open>"Bufferpool"\<close>.
\<close>

definition Heap_pool :: "obj list" where
  "Heap_pool =
     [OInstance ''Bufferpool'' 1, ODict [(2, 3)], OBasic (PStr ''size''), OBasic (PInt 10)]"

definition pool_state :: pyval where
  "pool_state = VDict [(str ''size'', VBasic (PInt 10))]"

theorem rehydrate_instantiates_only_Table_Index_witness:
  "map_of [(str ''__custom_type__'', str ''Bufferpool''), (str ''state'', pool_state)]
       (str ''__custom_type__'') = Some (str ''Bufferpool'')
   \<and> ''Bufferpool'' \<noteq> ''Table'' \<and> ''Bufferpool'' \<noteq> ''Index''
   \<and> convert_to_serializable Heap_pool {} 0 = Inr (tagged ''Bufferpool'' pool_state)
   \<and> rehydrate (spec_env (VBasic PNone)) (tagged ''Bufferpool'' pool_state)
        = Inr (tagged ''Bufferpool'' pool_state)
   \<and> (\<exists>kvs'. tagged ''Bufferpool'' pool_state = VDict kvs'
         \<and> map fst kvs' = [str ''__custom_type__'', str ''state'']
         \<and> map_of kvs' (str ''__custom_type__'') = Some (str ''Bufferpool''))
   \<and> rehydrate (spec_env (VBasic PNone)) (tagged ''Table'' pool_state) = Inr (VTable pool_state)
   \<and> (\<exists>d. VTable pool_state = VTable (VDict d))
   \<and> rehydrate (spec_env (VBasic PNone)) (tagged ''Index'' pool_state) = Inr (VIndex pool_state)
   \<and> (\<exists>d. VIndex pool_state = VIndex (VDict d))"
proof -
  let ?env = "spec_env (VBasic PNone)"
  let ?kvs = "\<lambda>c. [(str ''__custom_type__'', str c), (str ''state'', pool_state)]"
  have m: "map_of (?kvs c) (str ''__custom_type__'') = Some (str c)" for c by simp
  have n: "''Bufferpool'' \<noteq> ''Table'' \<and> ''Bufferpool'' \<noteq> ''Index''" by simp
  have rb: "rehydrate ?env (VDict (?kvs ''Bufferpool'')) = Inr (VDict (?kvs ''Bufferpool''))"
    by (simp add: rehydrate.simps(1) str_def pool_state_def)
  have rt: "rehydrate ?env (VDict (?kvs ''Table'')) = Inr (VTable pool_state)"
    by (simp add: rehydrate.simps(1) str_def pool_state_def spec_env_def instantiate_def)
  have ri: "rehydrate ?env (VDict (?kvs ''Index'')) = Inr (VIndex pool_state)"
    by (simp add: rehydrate.simps(1) str_def pool_state_def spec_env_def instantiate_def)
  note b = rehydrate_instantiates_only_Table_Index [OF m [of "''Bufferpool''"], of ?env,
      THEN conjunct2, THEN conjunct2, THEN mp, OF n, THEN conjunct2, THEN spec, THEN mp, OF rb]
  note t = rehydrate_instantiates_only_Table_Index [OF m [of "''Table''"], of ?env,
      THEN conjunct1, THEN mp, OF refl, THEN spec, THEN mp, OF rt]
  note i = rehydrate_instantiates_only_Table_Index [OF m [of "''Index''"], of ?env,
      THEN conjunct2, THEN conjunct1, THEN mp, OF refl, THEN spec, THEN mp, OF ri]
  from b have b': "\<exists>kvs'. VDict (?kvs ''Bufferpool'') = VDict kvs'
         \<and> map fst kvs' = [str ''__custom_type__'', str ''state'']
         \<and> map_of kvs' (str ''__custom_type__'') = Some (str ''Bufferpool'')"
    by simp
  have cv: "convert_to_serializable Heap_pool {} 0
      = Inr (VDict [(str ''__custom_type__'', str ''Bufferpool''), (str ''state'', pool_state)])"
    by (simp add: convert_to_serializable.simps Heap_pool_def pool_state_def tagged_def str_def)
  show ?thesis
    unfolding tagged_def
    by (intro conjI) (rule m n [THEN conjunct1] n [THEN conjunct2] cv rb rt ri b' t i)+
qed


section \<open>Cycle containment\<close>






text \<open>
  The size of a converted value is the number of its nodes: every scalar, dict, list and
  instance counts one. \<open>width h\<close> is the largest number of references any object of the
  heap holds, and at least one. \<open>bound B n\<close> bounds the nodes of the conversion of an
  object when \<open>n\<close> objects are not on the active path and no object holds more than \<open>B\<close>
  references: the object itself gives at most four nodes, the tagged mapping with its two
  keys and its tag, and each reference a conversion with one object fewer off the path.
\<close>

primrec nodes :: "pyval \<Rightarrow> nat" where
  "nodes (VBasic s) = 1"
| "nodes (VDict kvs) = Suc (sum_list (map (\<lambda>kv. fst kv + snd kv) (map (map_prod nodes nodes) kvs)))"
| "nodes (VList xs) = Suc (sum_list (map nodes xs))"
| "nodes (VTuple xs) = Suc (sum_list (map nodes xs))"
| "nodes (VSet xs) = Suc (sum_list (map nodes xs))"
| "nodes (VTable d) = Suc (nodes d)"
| "nodes (VIndex d) = Suc (nodes d)"
| "nodes (VInstance c d) = Suc (nodes d)"
| "nodes (VOpaque c s) = 1"



definition weight :: "(pyval \<times> pyval) list \<Rightarrow> nat" where
  "weight d = sum_list (map (\<lambda>(k, v). nodes k + nodes v) d)"


lemma weight_simps [simp]:
  "weight [] = 0" "weight ((k, v) # d) = nodes k + nodes v + weight d"
  by (simp_all add: weight_def)




























section \<open>The round trip\<close>



text \<open>
  The states that the round trip is claimed for, following the serializer's own cases: a
  scalar; a list of such states; a dict whose keys are scalars, none of them
  \<^verbatim>\<open>"__custom_type__"\<close>, and whose values are such states; a \<^verbatim>\<open>Table\<close> or an \<^verbatim>\<open>Index\<close>
  whose \<^verbatim>\<open>__dict__\<close> is such a dict. The keys of a dict are distinct, as they are in
  Python.
\<close>

fun is_scalar :: "pyval \<Rightarrow> bool" where
  "is_scalar (VBasic s) = True"
| "is_scalar v = False"

fun is_dict :: "pyval \<Rightarrow> bool" where
  "is_dict (VDict kvs) = True"
| "is_dict v = False"

primrec durable :: "pyval \<Rightarrow> bool" where
  "durable (VBasic s) = True"
| "durable (VDict kvs) =
     (distinct (map fst kvs) \<and> str ''__custom_type__'' \<notin> set (map fst kvs)
      \<and> list_all (\<lambda>kd. is_scalar (fst kd) \<and> snd kd) (map (map_prod id durable) kvs))"
| "durable (VList xs) = list_all id (map durable xs)"
| "durable (VTuple xs) = False"
| "durable (VSet xs) = False"
| "durable (VTable d) = (is_dict d \<and> durable d)"
| "durable (VIndex d) = (is_dict d \<and> durable d)"
| "durable (VInstance c d) = False"
| "durable (VOpaque c s) = False"

text \<open>
  The serialized form of a state, as the specification describes saving: "each structured
  object is tagged with a type marker before being flattened into plain
  mapping/sequence/scalar data".
\<close>

primrec flatten :: "pyval \<Rightarrow> pyval" where
  "flatten (VBasic s) = VBasic s"
| "flatten (VDict kvs) = VDict (map (map_prod id flatten) kvs)"
| "flatten (VList xs) = VList (map flatten xs)"
| "flatten (VTuple xs) = VList (map flatten xs)"
| "flatten (VSet xs) = VList (map flatten xs)"
| "flatten (VTable d) = tagged ''Table'' (flatten d)"
| "flatten (VIndex d) = tagged ''Index'' (flatten d)"
| "flatten (VInstance c d) = tagged c (flatten d)"
| "flatten (VOpaque c s) = str s"


lemma durable_VDict [simp]:
  "durable (VDict kvs) \<longleftrightarrow>
     distinct (map fst kvs) \<and> str ''__custom_type__'' \<notin> fst ` set kvs
     \<and> (\<forall>(k, v) \<in> set kvs. is_scalar k \<and> durable v)"
  by (auto simp: list_all_iff)

lemma durable_VList [simp]: "durable (VList xs) \<longleftrightarrow> (\<forall>x \<in> set xs. durable x)"
  by (auto simp: list_all_iff)

lemma flatten_VDict [simp]:
  "flatten (VDict kvs) = VDict (map (\<lambda>(k, v). (k, flatten v)) kvs)"
  by (simp add: map_prod_def id_def)

declare durable.simps(2, 3) [simp del]
declare flatten.simps(2) [simp del]




























lemma stem_tbl: "take (length (name @ ''.tbl'') - 4) (name @ ''.tbl'') = name"
  by simp










end
